theory Spec2Isabelle
  imports Main "HOL-Library.Word"
begin

section \<open>Values shared by the two packages\<close>

text \<open>
  A decoded record is a \<^verbatim>\<open>bson.D\<close>: an ordered list of field name and value. The value
  type is left open. A serialized document (\<^verbatim>\<open>bson.Raw\<close>) is its byte string.
\<close>

type_synonym 'v bsonD = "(string \<times> 'v) list"

type_synonym raw = "8 word list"

text \<open>
  One entry of the \<^verbatim>\<open>writeErrors\<close> array of a write command reply
  (\<^verbatim>\<open>map[string]interface{}\<close> in the source), kept as an association list.
\<close>

type_synonym write_error = "(string \<times> string) list"

text \<open>
  Go \<^verbatim>\<open>error\<close> values. \<open>Errorf\<close> is an error built by \<^verbatim>\<open>fmt.Errorf\<close>, carrying its
  message. \<open>ErrWriteCommandBulk\<close> is the struct of that name with its fields \<^verbatim>\<open>Errors\<close>
  and \<^verbatim>\<open>RootError\<close>. The two remaining constructors are the error values the driver hands
  back: one for a store that cannot be reached, one for everything else.
\<close>

datatype error =
    Errorf string
  | ErrWriteCommandBulk "write_error list" "error option"
  | ConnectionError string
  | DriverError string

section \<open>Package db: the buffered bulk inserter\<close>

definition MaxBulkSize :: int where
  "MaxBulkSize = 16790000"

definition BulkDocLimit :: int where
  "BulkDocLimit = 1000"

text \<open>
  Go's \<^verbatim>\<open>int\<close> is a 64-bit two's complement integer on the platforms the tool is built for.
  The counters are integers of HOL with the wrap-around written out.
\<close>

definition wrap64 :: "int \<Rightarrow> int" where
  "wrap64 x = (x + 2 ^ 63) mod 2 ^ 64 - 2 ^ 63"

subsection \<open>The store as seen through the driver\<close>

text \<open>
  The \<^verbatim>\<open>insert\<close> command document built by \<^verbatim>\<open>WriteCommandBulk.Run\<close>.
\<close>

record insert_cmd =
  cmd_insert :: string
  cmd_ordered :: bool
  cmd_documents :: "raw list"
  cmd_writeConcern :: string

text \<open>
  The round trips the code makes: the write command of \<^verbatim>\<open>WriteCommandBulk.Run\<close>,
  \<^verbatim>\<open>collection.Insert\<close> and \<^verbatim>\<open>collection.Upsert\<close> of the upserter, and
  \<^verbatim>\<open>collection.DropCollection\<close>. An upsert selector gives for each key field the value the
  record has for it, if any.
\<close>

type_synonym 'v selector = "(string \<times> 'v option) list"

datatype 'v request =
    RunCommand insert_cmd
  | CollInsert "'v bsonD"
  | CollUpsert "'v selector" "'v bsonD"
  | DropCollection

record reply =
  reply_err :: "error option"
  reply_writeErrors :: "write_error list"

text \<open>
  The world outside the process: the state of the store, and the log of every request that was
  put on the wire, oldest first.
\<close>

record ('v, 'db) world =
  store :: 'db
  sent :: "'v request list"

text \<open>
  The collaborators that are not code of the two packages: the BSON encoder, the store behind
  the driver, the session provider with its node type, the write concern builder and the blank
  field filter. \<open>marshal\<close> gives the message of the encoder's error, or the bytes.
\<close>

record ('v, 'db) env =
  marshal :: "'v bsonD \<Rightarrow> string + raw"
  server :: "'db \<Rightarrow> 'v request \<Rightarrow> reply \<times> 'db"
  GetSession :: "error option"
  GetNodeType :: "error + nat"
  BuildWriteConcern :: "string \<Rightarrow> nat \<Rightarrow> error option"
  removeBlankFields :: "'v bsonD \<Rightarrow> 'v bsonD"

definition roundTrip ::
  "('v, 'db) env \<Rightarrow> 'v request \<Rightarrow> ('v, 'db) world \<Rightarrow> reply \<times> ('v, 'db) world" where
  "roundTrip E rq w =
     (case server E (store w) rq of
        (rp, db') \<Rightarrow> (rp, \<lparr>store = db', sent = sent w @ [rq]\<rparr>))"

subsection \<open>WriteCommandBulk\<close>

text \<open>
  The implementation of \<^verbatim>\<open>BulkInserter\<close> that keeps the documents itself and sends them as
  one write command. The other one, \<^verbatim>\<open>LegacyBulkInserter\<close>, hands every call on to the bulk
  of the driver.
\<close>

record WriteCommandBulk =
  wcb_c :: string
  wcb_docs :: "raw list"
  wcb_unordered :: bool
  wcb_writeConcern :: string

definition NewWriteCommandBulk :: "string \<Rightarrow> bool \<Rightarrow> string \<Rightarrow> WriteCommandBulk" where
  "NewWriteCommandBulk c ordered writeConcern =
     \<lparr>wcb_c = c, wcb_docs = [], wcb_unordered = (\<not> ordered), wcb_writeConcern = writeConcern\<rparr>"

definition wcb_Reset :: "WriteCommandBulk \<Rightarrow> WriteCommandBulk" where
  "wcb_Reset wcb = wcb\<lparr>wcb_docs := []\<rparr>"

definition wcb_Unordered :: "WriteCommandBulk \<Rightarrow> WriteCommandBulk" where
  "wcb_Unordered wcb = wcb\<lparr>wcb_unordered := True\<rparr>"

definition wcb_Insert :: "WriteCommandBulk \<Rightarrow> raw \<Rightarrow> WriteCommandBulk" where
  "wcb_Insert wcb d = wcb\<lparr>wcb_docs := wcb_docs wcb @ [d]\<rparr>"

text \<open>
  \<^verbatim>\<open>Run\<close> sends one command with all the buffered documents. An error of the round trip is
  returned as it is; otherwise a reply with write errors becomes an \<^verbatim>\<open>ErrWriteCommandBulk\<close>,
  whose \<^verbatim>\<open>RootError\<close> is the nil error of the round trip.
\<close>

definition wcb_Run ::
  "('v, 'db) env \<Rightarrow> WriteCommandBulk \<Rightarrow> ('v, 'db) world \<Rightarrow> error option \<times> ('v, 'db) world" where
  "wcb_Run E wcb w =
     (let restoreDoc = \<lparr>cmd_insert = wcb_c wcb, cmd_ordered = (\<not> wcb_unordered wcb),
                        cmd_documents = wcb_docs wcb, cmd_writeConcern = wcb_writeConcern wcb\<rparr>
      in case roundTrip E (RunCommand restoreDoc) w of
           (result, w') \<Rightarrow>
             (case reply_err result of
                Some err \<Rightarrow> (Some err, w')
              | None \<Rightarrow>
                  if 0 < length (reply_writeErrors result)
                  then (Some (ErrWriteCommandBulk (reply_writeErrors result) None), w')
                  else (None, w')))"

subsection \<open>BufferedBulkInserter\<close>

record BufferedBulkInserter =
  bulk :: WriteCommandBulk
  continueOnError :: bool
  docLimit :: int
  byteCount :: int
  docCount :: int

definition NewBufferedBulkInserter ::
  "int \<Rightarrow> bool \<Rightarrow> WriteCommandBulk \<Rightarrow> BufferedBulkInserter" where
  "NewBufferedBulkInserter dl coe b =
     \<lparr>bulk = wcb_Reset b, continueOnError = coe, docLimit = dl, byteCount = 0, docCount = 0\<rparr>"

definition resetBulk :: "BufferedBulkInserter \<Rightarrow> WriteCommandBulk \<Rightarrow> BufferedBulkInserter" where
  "resetBulk bb b =
     bb\<lparr>bulk := (if continueOnError bb then wcb_Unordered b else b),
        byteCount := 0, docCount := 0\<rparr>"

text \<open>
  \<^verbatim>\<open>Flush\<close>: nothing happens when \<^verbatim>\<open>docCount\<close> is zero. Otherwise the bulk is run, and the
  deferred \<^verbatim>\<open>bb.bulk.Reset()\<close> runs on both exits. Neither counter is assigned.
\<close>

definition Flush ::
  "('v, 'db) env \<Rightarrow> BufferedBulkInserter \<Rightarrow> ('v, 'db) world
     \<Rightarrow> error option \<times> BufferedBulkInserter \<times> ('v, 'db) world" where
  "Flush E bb w =
     (if docCount bb = 0 then (None, bb, w)
      else case wcb_Run E (bulk bb) w of
             (err, w') \<Rightarrow> (err, bb\<lparr>bulk := wcb_Reset (bulk bb)\<rparr>, w'))"

text \<open>The test "flush if we are full" of \<^verbatim>\<open>Insert\<close>, on a document of \<open>n\<close> bytes.\<close>

definition full :: "BufferedBulkInserter \<Rightarrow> nat \<Rightarrow> bool" where
  "full bb n \<longleftrightarrow>
     docCount bb \<ge> docLimit bb \<or> wrap64 (byteCount bb + int n) > MaxBulkSize
       \<or> docCount bb \<ge> BulkDocLimit"

definition Insert ::
  "('v, 'db) env \<Rightarrow> BufferedBulkInserter \<Rightarrow> ('v, 'db) world \<Rightarrow> 'v bsonD
     \<Rightarrow> error option \<times> BufferedBulkInserter \<times> ('v, 'db) world" where
  "Insert E bb w doc =
     (case marshal E doc of
        Inl msg \<Rightarrow> (Some (Errorf (''bson encoding error: '' @ msg)), bb, w)
      | Inr rawBytes \<Rightarrow>
          (case (if full bb (length rawBytes) then Flush E bb w else (None, bb, w)) of
             (err, bb1, w1) \<Rightarrow>
               (err,
                bb1\<lparr>docCount := wrap64 (docCount bb1 + 1),
                    byteCount := wrap64 (byteCount bb1 + int (length rawBytes)),
                    bulk := wcb_Insert (bulk bb1) rawBytes\<rparr>,
                w1)))"

section \<open>Package mongoimport\<close>

subsection \<open>Options and the import state\<close>

definition CSV :: string where "CSV = ''csv''"

definition TSV :: string where "TSV = ''tsv''"

definition JSON :: string where "JSON = ''json''"

record ToolOptions =
  DB :: string
  Collection :: string
  Host :: string
  Port :: string
  NumDecodingWorkers :: int
  MaxProcs :: int
  BulkBufferSize :: int

record InputOptions =
  Type :: string
  HeaderLine :: bool
  Fields :: "string option"
  FieldFile :: "string option"
  File :: string
  JSONArray :: bool

record IngestOptions =
  Drop :: bool
  IgnoreBlanks :: bool
  MaintainInsertionOrder :: bool
  NumInsertionWorkers :: int
  StopOnError :: bool
  Upsert :: bool
  UpsertFields :: string
  WriteConcern :: string

text \<open>
  The embedded \<^verbatim>\<open>tomb.Tomb\<close>: alive, or dying with the reason it was killed for. \<^verbatim>\<open>Kill\<close>
  keeps the first reason that is not nil.
\<close>

datatype tomb = ErrStillAlive | Reason "error option"

definition Dying :: "tomb \<Rightarrow> bool" where
  "Dying t = (case t of ErrStillAlive \<Rightarrow> False | Reason r \<Rightarrow> True)"

definition Kill :: "tomb \<Rightarrow> error option \<Rightarrow> tomb" where
  "Kill t reason =
     (case t of
        ErrStillAlive \<Rightarrow> Reason reason
      | Reason None \<Rightarrow> Reason reason
      | Reason (Some r) \<Rightarrow> Reason (Some r))"

record MongoImport =
  ToolOptions :: ToolOptions
  InputOptions :: InputOptions
  IngestOptions :: IngestOptions
  insertionCount :: nat
  Tomb :: tomb
  upsertFields :: "string list"
  nodeType :: nat

subsection \<open>Error values as text\<close>

text \<open>
  The \<^verbatim>\<open>Error()\<close> method. For \<^verbatim>\<open>ErrWriteCommandBulk\<close> it is the method of the source: the
  root error's text, then one line per write error with its \<^verbatim>\<open>errmsg\<close>. A write error keeps
  each value as the text \<^verbatim>\<open>%#v\<close> prints for it; a missing key prints as the nil interface.
\<close>

primrec Error :: "error \<Rightarrow> string" where
  "Error (Errorf m) = m"
| "Error (ErrWriteCommandBulk errs root) =
     (case map_option Error root of None \<Rightarrow> [] | Some m \<Rightarrow> m)
       @ concat (map (\<lambda>e. CHR 0x0A # (case map_of e ''errmsg'' of None \<Rightarrow> ''<nil>'' | Some v \<Rightarrow> v)) errs)"
| "Error (ConnectionError m) = m"
| "Error (DriverError m) = m"

definition ErrNsNotFound :: string where
  "ErrNsNotFound = ''ns not found''"

subsection \<open>ValidateSettings\<close>

text \<open>
  The helpers of other packages that \<^verbatim>\<open>ValidateSettings\<close> calls: the three validators, and
  \<^verbatim>\<open>strings.ToLower\<close> and \<^verbatim>\<open>filepath.Base\<close> of the standard library.
\<close>

record lib =
  ValidateDBName :: "string \<Rightarrow> error option"
  validateFields :: "string list \<Rightarrow> error option"
  ValidateCollectionName :: "string \<Rightarrow> error option"
  ToLower :: "string \<Rightarrow> string"
  Base :: "string \<Rightarrow> string"

text \<open>\<^verbatim>\<open>strings.Split\<close> and \<^verbatim>\<open>strings.LastIndex\<close> for a separator of one byte.\<close>

fun Split :: "string \<Rightarrow> char \<Rightarrow> string list" where
  "Split [] sep = [[]]"
| "Split (x # xs) sep =
     (if x = sep then [] # Split xs sep
      else case Split xs sep of [] \<Rightarrow> [[x]] | y # ys \<Rightarrow> (x # y) # ys)"

fun LastIndexFrom :: "int \<Rightarrow> string \<Rightarrow> char \<Rightarrow> int" where
  "LastIndexFrom i [] sep = - 1"
| "LastIndexFrom i (x # xs) sep =
     (let r = LastIndexFrom (i + 1) xs sep
      in if r \<noteq> - 1 then r else if x = sep then i else - 1)"

definition LastIndex :: "string \<Rightarrow> char \<Rightarrow> int" where
  "LastIndex s sep = LastIndexFrom 0 s sep"

text \<open>
  The method mutates the receiver and returns at the first failed check, so every stage gives
  the error, if any, and the import state as it is at that point.
\<close>

type_synonym stage = "MongoImport \<Rightarrow> error option \<times> MongoImport"

definition andThen :: "stage \<Rightarrow> stage \<Rightarrow> stage" where
  "andThen f g imp = (case f imp of (Some e, imp') \<Rightarrow> (Some e, imp') | (None, imp') \<Rightarrow> g imp')"

definition vsDatabase :: "lib \<Rightarrow> stage" where
  "vsDatabase L imp =
     (let imp1 = (if DB (ToolOptions imp) = []
                  then imp\<lparr>ToolOptions := (ToolOptions imp)\<lparr>DB := ''test''\<rparr>\<rparr> else imp)
      in case ValidateDBName L (DB (ToolOptions imp1)) of
           Some err \<Rightarrow> (Some (Errorf (''invalid database name: '' @ Error err)), imp1)
         | None \<Rightarrow> (None, imp1))"

definition vsType :: "lib \<Rightarrow> stage" where
  "vsType L imp =
     (let imp1 = imp\<lparr>InputOptions := (InputOptions imp)\<lparr>Type := ToLower L (Type (InputOptions imp))\<rparr>\<rparr>
      in if Type (InputOptions imp1) = []
         then (None, imp1\<lparr>InputOptions := (InputOptions imp1)\<lparr>Type := JSON\<rparr>\<rparr>)
         else if \<not> (Type (InputOptions imp1) = TSV \<or> Type (InputOptions imp1) = JSON
                      \<or> Type (InputOptions imp1) = CSV)
         then (Some (Errorf (''unknown type '' @ Type (InputOptions imp1))), imp1)
         else (None, imp1))"

definition vsHeaders :: stage where
  "vsHeaders imp =
     (let inp = InputOptions imp in
      if Type inp = CSV \<or> Type inp = TSV then
        if \<not> HeaderLine inp then
          if Fields inp = None \<and> FieldFile inp = None
          then (Some (Errorf ''must specify --fields, --fieldFile or --headerline to import this file type''), imp)
          else if FieldFile inp = Some []
          then (Some (Errorf ''--fieldFile can not be empty string''), imp)
          else if Fields inp \<noteq> None \<and> FieldFile inp \<noteq> None
          then (Some (Errorf ''incompatible options: --fields and --fieldFile''), imp)
          else (None, imp)
        else
          if Fields inp \<noteq> None
          then (Some (Errorf ''incompatible options: --fields and --headerline''), imp)
          else if FieldFile inp \<noteq> None
          then (Some (Errorf ''incompatible options: --fieldFile and --headerline''), imp)
          else (None, imp)
      else
        if HeaderLine inp
        then (Some (Errorf ''can not use --headerline when input type is JSON''), imp)
        else if Fields inp \<noteq> None
        then (Some (Errorf ''can not use --fields when input type is JSON''), imp)
        else if FieldFile inp \<noteq> None
        then (Some (Errorf ''can not use --fieldFile when input type is JSON''), imp)
        else if IgnoreBlanks (IngestOptions imp)
        then (Some (Errorf ''can not use --ignoreBlanks when input type is JSON''), imp)
        else (None, imp))"

definition vsUpsert :: "lib \<Rightarrow> stage" where
  "vsUpsert L imp =
     (if UpsertFields (IngestOptions imp) \<noteq> [] then
        (let imp1 = imp\<lparr>IngestOptions := (IngestOptions imp)\<lparr>Upsert := True\<rparr>,
                        upsertFields := Split (UpsertFields (IngestOptions imp)) CHR '',''\<rparr>
         in case validateFields L (upsertFields imp1) of
              Some err \<Rightarrow> (Some (Errorf (''invalid --upsertFields argument: '' @ Error err)), imp1)
            | None \<Rightarrow> (None, imp1))
      else if Upsert (IngestOptions imp) then (None, imp\<lparr>upsertFields := [''_id'']\<rparr>)
      else (None, imp))"

definition vsWorkers :: stage where
  "vsWorkers imp =
     (let imp1 = (if Upsert (IngestOptions imp)
                  then imp\<lparr>IngestOptions := (IngestOptions imp)\<lparr>MaintainInsertionOrder := True\<rparr>\<rparr>
                  else imp);
          imp2 = (if NumDecodingWorkers (ToolOptions imp1) \<le> 0
                  then imp1\<lparr>ToolOptions := (ToolOptions imp1)\<lparr>NumDecodingWorkers := MaxProcs (ToolOptions imp1)\<rparr>\<rparr>
                  else imp1);
          imp3 = (if NumInsertionWorkers (IngestOptions imp2) \<le> 0
                  then imp2\<lparr>IngestOptions := (IngestOptions imp2)\<lparr>NumInsertionWorkers := 1\<rparr>\<rparr>
                  else imp2);
          imp4 = (if MaintainInsertionOrder (IngestOptions imp3)
                  then imp3\<lparr>IngestOptions := (IngestOptions imp3)\<lparr>NumInsertionWorkers := 1\<rparr>\<rparr>
                  else imp3);
          imp5 = (if BulkBufferSize (ToolOptions imp4) \<le> 0
                  then imp4\<lparr>ToolOptions := (ToolOptions imp4)\<lparr>BulkBufferSize := 10000\<rparr>\<rparr>
                  else imp4)
      in (None, imp5))"

definition vsArgs :: "string list \<Rightarrow> stage" where
  "vsArgs args imp =
     (if length args > 1 then (Some (Errorf ''only one positional argument is allowed''), imp)
      else if File (InputOptions imp) \<noteq> [] \<and> length args \<noteq> 0
      then (Some (Errorf ''incompatible options: --file and positional argument(s)''), imp)
      else if File (InputOptions imp) = [] then
        (case args of
           [] \<Rightarrow> (None, imp)
         | a # _ \<Rightarrow> (None, imp\<lparr>InputOptions := (InputOptions imp)\<lparr>File := a\<rparr>\<rparr>))
      else (None, imp))"

definition vsCollection :: "lib \<Rightarrow> stage" where
  "vsCollection L imp =
     (let imp1 =
        (if Collection (ToolOptions imp) = [] then
           (let fileBaseName = Base L (File (InputOptions imp));
                lastDotIndex = LastIndex fileBaseName CHR ''.'';
                fileBaseName' = (if lastDotIndex \<noteq> - 1 then take (nat lastDotIndex) fileBaseName
                                 else fileBaseName)
            in imp\<lparr>ToolOptions := (ToolOptions imp)\<lparr>Collection := fileBaseName'\<rparr>\<rparr>)
         else imp)
      in case ValidateCollectionName L (Collection (ToolOptions imp1)) of
           Some err \<Rightarrow> (Some (Errorf (''invalid collection name: '' @ Error err)), imp1)
         | None \<Rightarrow> (None, imp1))"

definition ValidateSettings :: "lib \<Rightarrow> string list \<Rightarrow> stage" where
  "ValidateSettings L args =
     andThen (vsDatabase L) (andThen (vsType L) (andThen vsHeaders (andThen (vsUpsert L)
       (andThen vsWorkers (andThen (vsArgs args) (vsCollection L))))))"

subsection \<open>Helpers of the package whose source is not at hand\<close>

text \<open>
  Modelled from the spec: the test for a connection-level failure, \<^verbatim>\<open>db.IsConnectionError\<close>
  of a package that is missing. The spec: a connection-level failure is one where the store
  cannot be reached.
\<close>

definition IsConnectionError :: "error \<Rightarrow> bool" where
  "IsConnectionError e = (case e of ConnectionError m \<Rightarrow> True | _ \<Rightarrow> False)"

text \<open>
  Modelled from the spec: \<^verbatim>\<open>filterIngestError\<close>, called by \<^verbatim>\<open>runInsertionWorker\<close> and defined
  in a file that is missing. The spec: a record-level write failure is classified by the
  stop-on-error policy; under "stop" the error is returned, under "continue" it is ignored and
  processing continues; a connection-level failure is always fatal regardless of policy.
\<close>

definition filterIngestError :: "bool \<Rightarrow> error option \<Rightarrow> error option" where
  "filterIngestError stopOnError err =
     (case err of
        None \<Rightarrow> None
      | Some e \<Rightarrow> if stopOnError \<or> IsConnectionError e then Some e else None)"

text \<open>
  Modelled from the spec: \<^verbatim>\<open>constructUpsertDocument\<close>, called by the upserter and defined in
  a file that is missing. The spec: given the key fields and a record, build a selector mapping
  each key field to the record's value for that field, preserving field order; if the key set
  is empty, return "no selector".
\<close>

definition constructUpsertDocument :: "string list \<Rightarrow> 'v bsonD \<Rightarrow> 'v selector option" where
  "constructUpsertDocument keys document =
     (case keys of
        [] \<Rightarrow> None
      | k # ks \<Rightarrow> Some (map (\<lambda>key. (key, map_of document key)) keys))"

text \<open>The first error that is not nil in a list of errors, nil when there is none.\<close>

fun firstError :: "error option list \<Rightarrow> error option" where
  "firstError [] = None"
| "firstError (None # es) = firstError es"
| "firstError (Some e # es) = Some e"

text \<open>
  Modelled from the spec: \<^verbatim>\<open>channelQuorumError\<close>, called by \<^verbatim>\<open>importDocuments\<close> and defined in
  a file that is missing. The spec: await both tasks' terminal signals via a two-party
  completion barrier; return the first non-nil error encountered by either party, the one read
  first. The channel is the list of the signals in the order they arrive; with fewer signals
  than the quorum the call never returns.
\<close>

definition channelQuorumError :: "error option list \<Rightarrow> nat \<Rightarrow> error option option" where
  "channelQuorumError ch quorum =
     (if length ch < quorum then None else Some (firstError (take quorum ch)))"

subsection \<open>The two implementations of flushInserter\<close>

datatype inserter = Bulk BufferedBulkInserter | Upserter

definition upserter_Insert ::
  "('v, 'db) env \<Rightarrow> MongoImport \<Rightarrow> ('v, 'db) world \<Rightarrow> 'v bsonD
     \<Rightarrow> error option \<times> ('v, 'db) world" where
  "upserter_Insert E imp w document =
     (case constructUpsertDocument (upsertFields imp) document of
        None \<Rightarrow> (case roundTrip E (CollInsert document) w of (rp, w') \<Rightarrow> (reply_err rp, w'))
      | Some selector \<Rightarrow>
          (case roundTrip E (CollUpsert selector document) w of (rp, w') \<Rightarrow> (reply_err rp, w')))"

definition inserter_Insert ::
  "('v, 'db) env \<Rightarrow> MongoImport \<Rightarrow> inserter \<Rightarrow> ('v, 'db) world \<Rightarrow> 'v bsonD
     \<Rightarrow> error option \<times> inserter \<times> ('v, 'db) world" where
  "inserter_Insert E imp ins w document =
     (case ins of
        Bulk bb \<Rightarrow> (case Insert E bb w document of (err, bb', w') \<Rightarrow> (err, Bulk bb', w'))
      | Upserter \<Rightarrow> (case upserter_Insert E imp w document of (err, w') \<Rightarrow> (err, Upserter, w')))"

definition inserter_Flush ::
  "('v, 'db) env \<Rightarrow> inserter \<Rightarrow> ('v, 'db) world \<Rightarrow> error option \<times> inserter \<times> ('v, 'db) world" where
  "inserter_Flush E ins w =
     (case ins of
        Bulk bb \<Rightarrow> (case Flush E bb w of (err, bb', w') \<Rightarrow> (err, Bulk bb', w'))
      | Upserter \<Rightarrow> (None, Upserter, w))"

subsection \<open>runInsertionWorker\<close>

definition configureSession :: "('v, 'db) env \<Rightarrow> MongoImport \<Rightarrow> error option" where
  "configureSession E imp =
     (case BuildWriteConcern E (WriteConcern (IngestOptions imp)) (nodeType imp) of
        Some err \<Rightarrow> Some (Errorf (''write concern error: '' @ Error err))
      | None \<Rightarrow> None)"

text \<open>
  The inserter of a worker. The call in \<^verbatim>\<open>runInsertionWorker\<close> passes the collection, the
  document limit and the continue-on-error flag, and calls \<^verbatim>\<open>Unordered\<close> when the insertion
  order need not be kept; the constructor of this revision takes the bulk as a further argument.
  The bulk is a write command bulk for the collection, and \<^verbatim>\<open>Unordered\<close> is the method of
  the bulk.
\<close>

definition newInserter :: "MongoImport \<Rightarrow> inserter" where
  "newInserter imp =
     (if Upsert (IngestOptions imp) then Upserter
      else
        (let b = NewWriteCommandBulk (Collection (ToolOptions imp)) True
                   (WriteConcern (IngestOptions imp));
             bb = NewBufferedBulkInserter (BulkBufferSize (ToolOptions imp))
                    (\<not> StopOnError (IngestOptions imp)) b
         in Bulk (if \<not> MaintainInsertionOrder (IngestOptions imp)
                  then bb\<lparr>bulk := wcb_Unordered (bulk bb)\<rparr> else bb)))"

text \<open>The part of the function before the loop: the session, its configuration, the inserter.\<close>

definition workerSetup :: "('v, 'db) env \<Rightarrow> MongoImport \<Rightarrow> error + inserter" where
  "workerSetup E imp =
     (case GetSession E of
        Some err \<Rightarrow> Inl (Errorf (''error connecting to mongod: '' @ Error err))
      | None \<Rightarrow>
          (case configureSession E imp of
             Some err \<Rightarrow> Inl (Errorf (''error configuring session: '' @ Error err))
           | None \<Rightarrow> Inr (newInserter imp)))"

text \<open>
  One pass through the \<^verbatim>\<open>select\<close> of the read loop. The case that was taken is an input: a
  document received from the channel, the channel found closed, or the tomb found dying. The
  first component of the result is \<open>None\<close> when the loop goes on, and the value the function
  returns otherwise; on a closed channel that is the result of the final flush.
\<close>

datatype 'v selected = Document "'v bsonD" | ChannelClosed | TombDying

definition selectCase ::
  "('v, 'db) env \<Rightarrow> 'v selected \<Rightarrow> inserter \<Rightarrow> MongoImport \<Rightarrow> ('v, 'db) world
     \<Rightarrow> error option option \<times> inserter \<times> MongoImport \<times> ('v, 'db) world" where
  "selectCase E sel ins imp w =
     (case sel of
        Document d \<Rightarrow>
          (let ignoreBlanks = (IgnoreBlanks (IngestOptions imp) \<and> Type (InputOptions imp) \<noteq> JSON);
               document = (if ignoreBlanks then removeBlankFields E d else d)
           in case inserter_Insert E imp ins w document of
                (e, ins', w') \<Rightarrow>
                  (case filterIngestError (StopOnError (IngestOptions imp)) e of
                     Some err \<Rightarrow> (Some (Some err), ins', imp, w')
                   | None \<Rightarrow>
                       (None, ins', imp\<lparr>insertionCount := (insertionCount imp + 1) mod 2 ^ 64\<rparr>, w')))
      | ChannelClosed \<Rightarrow>
          (case inserter_Flush E ins w of
             (e, ins', w') \<Rightarrow>
               (Some (filterIngestError (StopOnError (IngestOptions imp)) e), ins', imp, w'))
      | TombDying \<Rightarrow> (Some None, ins, imp, w))"

text \<open>
  A \<^verbatim>\<open>select\<close> takes any of its cases that can proceed, with no priority among them. The case
  of the tomb can proceed once the tomb is dying; a document or the closing of the channel
  comes from the producer, whatever the state of the tomb.
\<close>

definition ready :: "tomb \<Rightarrow> 'v selected \<Rightarrow> bool" where
  "ready t sel = (case sel of TombDying \<Rightarrow> Dying t | _ \<Rightarrow> True)"

text \<open>
  The read loop of one worker over the cases its \<^verbatim>\<open>select\<close> takes, in order. A case that
  cannot proceed is passed over. With no case left the worker waits at the \<^verbatim>\<open>select\<close> and
  has not returned.
\<close>

fun readLoop ::
  "('v, 'db) env \<Rightarrow> inserter \<Rightarrow> MongoImport \<Rightarrow> ('v, 'db) world \<Rightarrow> 'v selected list
     \<Rightarrow> error option option \<times> inserter \<times> MongoImport \<times> ('v, 'db) world" where
  "readLoop E ins imp w [] = (None, ins, imp, w)"
| "readLoop E ins imp w (sel # sels) =
     (if ready (Tomb imp) sel then
        (case selectCase E sel ins imp w of
           (None, ins', imp', w') \<Rightarrow> readLoop E ins' imp' w' sels
         | (Some r, ins', imp', w') \<Rightarrow> (Some r, ins', imp', w'))
      else readLoop E ins imp w sels)"

definition runInsertionWorker ::
  "('v, 'db) env \<Rightarrow> MongoImport \<Rightarrow> ('v, 'db) world \<Rightarrow> 'v selected list
     \<Rightarrow> error option option \<times> MongoImport \<times> ('v, 'db) world" where
  "runInsertionWorker E imp w sels =
     (case workerSetup E imp of
        Inl err \<Rightarrow> (Some (Some err), imp, w)
      | Inr ins \<Rightarrow> (case readLoop E ins imp w sels of (r, ins', imp', w') \<Rightarrow> (r, imp', w')))"

subsection \<open>ingestDocuments\<close>

text \<open>
  The worker goroutines run concurrently. Each is spawned, runs the worker function, which
  holds its private inserter while in the read loop, and has exited once the deferred part of
  the goroutine is done. What they share is the import state, with the counter and the tomb,
  the store, and the error slot \<^verbatim>\<open>retErr\<close>.
\<close>

datatype goroutine = Spawned | Running inserter | Exited

record ('v, 'db) pool =
  pool_imp :: MongoImport
  pool_world :: "('v, 'db) world"
  goroutines :: "goroutine list"
  retErr :: "error option"

text \<open>
  The end of goroutine \<open>i\<close>, whose worker function returned \<open>err\<close>: under the mutex, the first
  error that is not nil is stored and the tomb is killed with it.
\<close>

definition goroutineDone :: "nat \<Rightarrow> error option \<Rightarrow> ('v, 'db) pool \<Rightarrow> ('v, 'db) pool" where
  "goroutineDone i err P =
     (let P1 = P\<lparr>goroutines := (goroutines P)[i := Exited]\<rparr>
      in case err of
           None \<Rightarrow> P1
         | Some e \<Rightarrow>
             (case retErr P of
                Some e0 \<Rightarrow> P1
              | None \<Rightarrow> P1\<lparr>retErr := Some e,
                           pool_imp := (pool_imp P)\<lparr>Tomb := Kill (Tomb (pool_imp P)) (Some e)\<rparr>\<rparr>))"

text \<open>
  An interleaving of the goroutines is a schedule: a list of steps, each naming a goroutine
  and what it does next. \<open>Start\<close> runs the worker function up to the loop, \<open>Select\<close> one pass
  of the loop with the case taken. A worker that returns passes the mutex in the same step. A
  step that its goroutine cannot take leaves everything as it is.
\<close>

datatype 'v act = Start | Select "'v selected"

definition poolStep ::
  "('v, 'db) env \<Rightarrow> ('v, 'db) pool \<Rightarrow> nat \<times> 'v act \<Rightarrow> ('v, 'db) pool" where
  "poolStep E P ev =
     (case ev of (i, a) \<Rightarrow>
        if i < length (goroutines P) then
          (case goroutines P ! i of
             Spawned \<Rightarrow>
               (case a of
                  Start \<Rightarrow>
                    (case workerSetup E (pool_imp P) of
                       Inl err \<Rightarrow> goroutineDone i (Some err) P
                     | Inr ins \<Rightarrow> P\<lparr>goroutines := (goroutines P)[i := Running ins]\<rparr>)
                | Select sel \<Rightarrow> P)
           | Running ins \<Rightarrow>
               (case a of
                  Start \<Rightarrow> P
                | Select sel \<Rightarrow>
                    if ready (Tomb (pool_imp P)) sel then
                      (case selectCase E sel ins (pool_imp P) (pool_world P) of
                         (None, ins', imp', w') \<Rightarrow>
                           P\<lparr>pool_imp := imp', pool_world := w',
                             goroutines := (goroutines P)[i := Running ins']\<rparr>
                       | (Some err, ins', imp', w') \<Rightarrow>
                           goroutineDone i err (P\<lparr>pool_imp := imp', pool_world := w'\<rparr>))
                    else P)
           | Exited \<Rightarrow> P)
        else P)"

definition runPool ::
  "('v, 'db) env \<Rightarrow> ('v, 'db) pool \<Rightarrow> (nat \<times> 'v act) list \<Rightarrow> ('v, 'db) pool" where
  "runPool E P sched = foldl (poolStep E) P sched"

definition numInsertionWorkers :: "MongoImport \<Rightarrow> int" where
  "numInsertionWorkers imp =
     (if NumInsertionWorkers (IngestOptions imp) \<le> 0 then 1
      else NumInsertionWorkers (IngestOptions imp))"

definition hasExited :: "goroutine \<Rightarrow> bool" where
  "hasExited g = (case g of Exited \<Rightarrow> True | _ \<Rightarrow> False)"

text \<open>
  \<^verbatim>\<open>ingestDocuments\<close> spawns the workers and waits for all of them; it returns \<^verbatim>\<open>retErr\<close>.
  The first component is \<open>None\<close> when, at the end of the schedule, some goroutine has not
  exited and \<^verbatim>\<open>wg.Wait()\<close> has not returned.
\<close>

definition ingestDocuments ::
  "('v, 'db) env \<Rightarrow> MongoImport \<Rightarrow> ('v, 'db) world \<Rightarrow> (nat \<times> 'v act) list
     \<Rightarrow> error option option \<times> ('v, 'db) pool" where
  "ingestDocuments E imp w sched =
     (let P0 = \<lparr>pool_imp = imp, pool_world = w,
                goroutines = replicate (nat (numInsertionWorkers imp)) Spawned, retErr = None\<rparr>;
          P = runPool E P0 sched
      in (if list_all hasExited (goroutines P) then Some (retErr P) else None, P))"

subsection \<open>importDocuments\<close>

text \<open>
  What the concurrent part of a run is made of: the schedule of the workers, the error the
  input reader's \<^verbatim>\<open>StreamDocument\<close> ends with, and which of the two goroutines sends on the
  error channel first.
\<close>

record 'v run =
  schedule :: "(nat \<times> 'v act) list"
  StreamDocument :: "error option"
  producerFirst :: bool

text \<open>
  The concurrent part of \<^verbatim>\<open>importDocuments\<close>, from the making of the two channels to the
  return: the producer and \<^verbatim>\<open>ingestDocuments\<close> each send their error on the error channel,
  \<^verbatim>\<open>channelQuorumError\<close> waits for the two, and the counter is read. The result is \<open>None\<close>
  when this does not return. Otherwise it is the number of documents imported and the error,
  with the import state and the world the run ends in.
\<close>

definition runPipeline ::
  "('v, 'db) env \<Rightarrow> MongoImport \<Rightarrow> ('v, 'db) world \<Rightarrow> 'v run
     \<Rightarrow> (nat \<times> error option \<times> MongoImport \<times> ('v, 'db) world) option" where
  "runPipeline E imp w R =
     (case ingestDocuments E imp w (schedule R) of
        (None, P) \<Rightarrow> None
      | (Some e, P) \<Rightarrow>
          (let processingErrChan =
                 (if producerFirst R then [StreamDocument R, e] else [e, StreamDocument R])
           in case channelQuorumError processingErrChan 2 of
                None \<Rightarrow> None
              | Some e1 \<Rightarrow> Some (insertionCount (pool_imp P), e1, pool_imp P, pool_world P)))"

text \<open>
  \<^verbatim>\<open>importDocuments\<close>: the session, the node type, the configuration of the session and the
  dropping of the collection come first, each with its early return.
\<close>

definition importDocuments ::
  "('v, 'db) env \<Rightarrow> MongoImport \<Rightarrow> ('v, 'db) world \<Rightarrow> 'v run
     \<Rightarrow> (nat \<times> error option \<times> MongoImport \<times> ('v, 'db) world) option" where
  "importDocuments E imp w R =
     (case GetSession E of
        Some err \<Rightarrow> Some (0, Some err, imp, w)
      | None \<Rightarrow>
          (case GetNodeType E of
             Inl err \<Rightarrow>
               Some (0, Some (Errorf (''error checking connected node type: '' @ Error err)), imp, w)
           | Inr nt \<Rightarrow>
               (let imp1 = imp\<lparr>nodeType := nt\<rparr> in
                case configureSession E imp1 of
                  Some err \<Rightarrow>
                    Some (0, Some (Errorf (''error configuring session: '' @ Error err)), imp1, w)
                | None \<Rightarrow>
                    (case (if Drop (IngestOptions imp1)
                           then (case roundTrip E DropCollection w of
                                   (rp, w') \<Rightarrow>
                                     (case reply_err rp of
                                        None \<Rightarrow> (None, w')
                                      | Some err \<Rightarrow>
                                          if Error err \<noteq> ErrNsNotFound then (Some err, w')
                                          else (None, w')))
                           else (None, w)) of
                       (Some err, w1) \<Rightarrow> Some (0, Some err, imp1, w1)
                     | (None, w1) \<Rightarrow> runPipeline E imp1 w1 R))))"

section \<open>Observing a run\<close>

text \<open>
  The batches that were flushed are the document lists of the write commands in the log, and
  the serialized size of a batch is the sum of the sizes of its documents.
\<close>

fun flushed :: "'v request list \<Rightarrow> raw list list" where
  "flushed [] = []"
| "flushed (RunCommand c # rqs) = cmd_documents c # flushed rqs"
| "flushed (CollInsert d # rqs) = flushed rqs"
| "flushed (CollUpsert s d # rqs) = flushed rqs"
| "flushed (DropCollection # rqs) = flushed rqs"

definition batchBytes :: "raw list \<Rightarrow> int" where
  "batchBytes b = sum_list (map (\<lambda>r. int (length r)) b)"

text \<open>
  A client of the builder calls \<^verbatim>\<open>Insert\<close> and \<^verbatim>\<open>Flush\<close> in some order, whatever they return.
\<close>

datatype 'v call = CallInsert "'v bsonD" | CallFlush

fun calls ::
  "('v, 'db) env \<Rightarrow> BufferedBulkInserter \<Rightarrow> ('v, 'db) world \<Rightarrow> 'v call list
     \<Rightarrow> BufferedBulkInserter \<times> ('v, 'db) world" where
  "calls E bb w [] = (bb, w)"
| "calls E bb w (CallInsert d # cs) = (case Insert E bb w d of (err, bb', w') \<Rightarrow> calls E bb' w' cs)"
| "calls E bb w (CallFlush # cs) = (case Flush E bb w of (err, bb', w') \<Rightarrow> calls E bb' w' cs)"

text \<open>The bytes a call adds to the byte counter.\<close>

definition callBytes :: "('v, 'db) env \<Rightarrow> 'v call \<Rightarrow> int" where
  "callBytes E c =
     (case c of
        CallInsert d \<Rightarrow> (case marshal E d of Inl msg \<Rightarrow> 0 | Inr r \<Rightarrow> int (length r))
      | CallFlush \<Rightarrow> 0)"

text \<open>
  What the bounds are checked against: a batch of at most \<open>min dl 1000\<close> documents whose size
  is at most the byte ceiling unless it is a single document; and the state of a builder whose
  buffer is such a batch and is covered by the two counters.
\<close>

definition okBatch :: "int \<Rightarrow> raw list \<Rightarrow> bool" where
  "okBatch dl batch \<longleftrightarrow>
     int (length batch) \<le> min dl BulkDocLimit
       \<and> (batchBytes batch \<le> MaxBulkSize \<or> length batch = 1)"

definition builderInv :: "int \<Rightarrow> BufferedBulkInserter \<Rightarrow> bool" where
  "builderInv dl bb \<longleftrightarrow>
     docLimit bb = dl \<and> 0 \<le> byteCount bb
       \<and> int (length (wcb_docs (bulk bb))) \<le> docCount bb
       \<and> batchBytes (wcb_docs (bulk bb)) \<le> byteCount bb
       \<and> okBatch dl (wcb_docs (bulk bb))"

text \<open>
  Two conditions on the collaborators, for runs that go on after errors: the store never
  answers with a connection error; and every record of a list serializes, to at most \<open>m\<close>
  bytes.
\<close>

definition noConnectionError :: "('v, 'db) env \<Rightarrow> bool" where
  "noConnectionError E \<longleftrightarrow>
     (\<forall>db rq e. reply_err (fst (server E db rq)) = Some e \<longrightarrow> \<not> IsConnectionError e)"

definition marshalsWithin :: "('v, 'db) env \<Rightarrow> int \<Rightarrow> 'v bsonD list \<Rightarrow> bool" where
  "marshalsWithin E m ds \<longleftrightarrow> (\<forall>d\<in>set ds. \<exists>r. marshal E d = Inr r \<and> int (length r) \<le> m)"

section \<open>A store with a unique key, for concrete runs\<close>

text \<open>
  Values are integers. The encoder writes the \<^verbatim>\<open>_id\<close> in two bytes and then as many bytes
  as the field \<^verbatim>\<open>pad\<close> says. The store keeps the keys it holds, rejects a key it already has
  with a write error, stops a batch there when the batch is ordered, and rejects a write
  command without documents.
\<close>

definition exMarshal :: "int bsonD \<Rightarrow> string + raw" where
  "exMarshal d =
     (case map_of d ''_id'' of
        None \<Rightarrow> Inl ''no _id''
      | Some k \<Rightarrow>
          if k < 0 \<or> 65536 \<le> k then Inl ''_id out of range''
          else Inr (word_of_int (k mod 256) # word_of_int (k div 256)
                      # replicate (nat (case map_of d ''pad'' of None \<Rightarrow> 0 | Some n \<Rightarrow> n)) 0))"

definition exKey :: "raw \<Rightarrow> int" where
  "exKey r = (case r of a # b # rest \<Rightarrow> uint a + 256 * uint b | _ \<Rightarrow> 0)"

definition exDuplicate :: write_error where
  "exDuplicate = [(''code'', ''11000''), (''errmsg'', ''duplicate key'')]"

fun exInsertMany :: "bool \<Rightarrow> int list \<Rightarrow> raw list \<Rightarrow> write_error list \<times> int list" where
  "exInsertMany ord db [] = ([], db)"
| "exInsertMany ord db (r # rs) =
     (if exKey r \<in> set db then
        (if ord then ([exDuplicate], db)
         else case exInsertMany ord db rs of (es, db') \<Rightarrow> (exDuplicate # es, db'))
      else exInsertMany ord (db @ [exKey r]) rs)"

definition exOk :: reply where
  "exOk = \<lparr>reply_err = None, reply_writeErrors = []\<rparr>"

definition exServer :: "int list \<Rightarrow> int request \<Rightarrow> reply \<times> int list" where
  "exServer db rq =
     (case rq of
        RunCommand c \<Rightarrow>
          (case cmd_documents c of
             [] \<Rightarrow> (\<lparr>reply_err = Some (DriverError ''no documents''), reply_writeErrors = []\<rparr>, db)
           | r # rs \<Rightarrow>
               (case exInsertMany (cmd_ordered c) db (r # rs) of
                  (es, db') \<Rightarrow> (\<lparr>reply_err = None, reply_writeErrors = es\<rparr>, db')))
      | CollInsert d \<Rightarrow>
          (case map_of d ''_id'' of
             None \<Rightarrow> (exOk, db)
           | Some k \<Rightarrow>
               if k \<in> set db
               then (\<lparr>reply_err = Some (DriverError ''duplicate key''), reply_writeErrors = []\<rparr>, db)
               else (exOk, db @ [k]))
      | CollUpsert s d \<Rightarrow>
          (case map_of d ''_id'' of
             None \<Rightarrow> (exOk, db)
           | Some k \<Rightarrow> if k \<in> set db then (exOk, db) else (exOk, db @ [k]))
      | DropCollection \<Rightarrow> (exOk, []))"

definition exEnv :: "(int, int list) env" where
  "exEnv = \<lparr>marshal = exMarshal, server = exServer, GetSession = None, GetNodeType = Inr 0,
            BuildWriteConcern = (\<lambda>wc nt. None), removeBlankFields = (\<lambda>d. d)\<rparr>"

definition exLib :: lib where
  "exLib = \<lparr>ValidateDBName = (\<lambda>s. None), validateFields = (\<lambda>fs. None),
            ValidateCollectionName = (\<lambda>s. None), ToLower = (\<lambda>s. s), Base = (\<lambda>s. s)\<rparr>"

text \<open>
  The settings of the end-to-end scenario: document limit 1000, one insertion worker, errors do
  not stop the run, no upsert.
\<close>

definition exImp :: MongoImport where
  "exImp =
     \<lparr>ToolOptions = \<lparr>DB = ''test'', Collection = ''c'', Host = [], Port = [],
                      NumDecodingWorkers = 1, MaxProcs = 1, BulkBufferSize = 1000\<rparr>,
      InputOptions = \<lparr>Type = JSON, HeaderLine = False, Fields = None, FieldFile = None,
                       File = ''c.json'', JSONArray = False\<rparr>,
      IngestOptions = \<lparr>Drop = False, IgnoreBlanks = False, MaintainInsertionOrder = False,
                        NumInsertionWorkers = 1, StopOnError = False, Upsert = False,
                        UpsertFields = [], WriteConcern = ''majority''\<rparr>,
      insertionCount = 0, Tomb = ErrStillAlive, upsertFields = [], nodeType = 0\<rparr>"

text \<open>
  Settings that ask for upsert and four insertion workers, and what \<^verbatim>\<open>ValidateSettings\<close>
  makes of them.
\<close>

definition exUpsertImp :: MongoImport where
  "exUpsertImp = exImp\<lparr>IngestOptions := (IngestOptions exImp)\<lparr>Upsert := True, NumInsertionWorkers := 4\<rparr>\<rparr>"

definition exValidated :: MongoImport where
  "exValidated = exUpsertImp\<lparr>IngestOptions := (IngestOptions exUpsertImp)\<lparr>MaintainInsertionOrder := True, NumInsertionWorkers := 1\<rparr>,
      upsertFields := [''_id'']\<rparr>"

text \<open>An empty log over a store that holds the keys \<open>db\<close>.\<close>

definition exWorld :: "int list \<Rightarrow> (int, int list) world" where
  "exWorld db = \<lparr>store = db, sent = []\<rparr>"

text \<open>The record with key \<open>k\<close>, and the same with \<open>n\<close> bytes of padding.\<close>

definition exDoc :: "int \<Rightarrow> int bsonD" where
  "exDoc k = [(''_id'', k)]"

definition exPadded :: "int \<Rightarrow> int \<Rightarrow> int bsonD" where
  "exPadded k n = [(''_id'', k), (''pad'', n)]"

text \<open>A fresh builder with document limit \<open>dl\<close> over a write command bulk.\<close>

definition exBuilder :: "int \<Rightarrow> BufferedBulkInserter" where
  "exBuilder dl = NewBufferedBulkInserter dl True (NewWriteCommandBulk ''c'' False ''majority'')"

text \<open>
  A run with two workers that stops at the first error, with document limit 1, over a store
  that holds key 1. Both workers start; worker 0 buffers key 1, worker 1 buffers key 3, and
  worker 0, on key 2, flushes key 1, which the store rejects: worker 0 returns the error. The
  pool states of this run are written with \<open>exPool\<close>: the counter, the tomb, the keys in the
  store, the log, the goroutines and the error slot.
\<close>

definition exStopImp :: MongoImport where
  "exStopImp = exImp\<lparr>ToolOptions := (ToolOptions exImp)\<lparr>BulkBufferSize := 1\<rparr>,
                     IngestOptions := (IngestOptions exImp)\<lparr>StopOnError := True,
                                                               NumInsertionWorkers := 2\<rparr>\<rparr>"

definition exSched :: "(nat \<times> int act) list" where
  "exSched = [(0, Start), (1, Start), (0, Select (Document (exDoc 1))),
              (1, Select (Document (exDoc 3))), (0, Select (Document (exDoc 2)))]"

definition exB :: "raw list \<Rightarrow> int \<Rightarrow> int \<Rightarrow> goroutine" where
  "exB ds n b =
     Running (Bulk \<lparr>bulk = \<lparr>wcb_c = ''c'', wcb_docs = ds, wcb_unordered = True,
                             wcb_writeConcern = ''majority''\<rparr>,
                    continueOnError = False, docLimit = 1, byteCount = b, docCount = n\<rparr>)"

definition exCmd :: "raw list \<Rightarrow> int request" where
  "exCmd ds = RunCommand \<lparr>cmd_insert = ''c'', cmd_ordered = False, cmd_documents = ds,
                          cmd_writeConcern = ''majority''\<rparr>"

definition exPool ::
  "nat \<Rightarrow> tomb \<Rightarrow> int list \<Rightarrow> int request list \<Rightarrow> goroutine list \<Rightarrow> error option
     \<Rightarrow> (int, int list) pool" where
  "exPool n t db rqs gs r =
     \<lparr>pool_imp = exStopImp\<lparr>insertionCount := n, Tomb := t\<rparr>,
      pool_world = \<lparr>store = db, sent = rqs\<rparr>, goroutines = gs, retErr = r\<rparr>"

definition exErr :: error where
  "exErr = ErrWriteCommandBulk [exDuplicate] None"

definition exRun :: "int run" where
  "exRun = \<lparr>schedule = exSched @ [(1, Select (Document [(''pad'', 3)]))],
            StreamDocument = None, producerFirst = True\<rparr>"

text \<open>
  The same run of the workers, with a producer that ends with a decoding error and whose
  signal is read first.
\<close>

definition exDecodeRun :: "int run" where
  "exDecodeRun = \<lparr>schedule = exSched @ [(1, Select (Document [(''pad'', 3)]))],
                  StreamDocument = Some (DriverError ''decode''), producerFirst = True\<rparr>"

text \<open>
  The end-to-end scenario: the records with the keys from \<open>i\<close> up to \<open>j\<close>; and the run in
  which the only worker starts, receives the 2500 records with the keys from 0 in order, and
  then finds the channel closed, while the producer ends without error.
\<close>

definition exRecords :: "nat \<Rightarrow> nat \<Rightarrow> int bsonD list" where
  "exRecords i j = map (\<lambda>k. exDoc (int k)) [i..<j]"

definition exBigRun :: "int run" where
  "exBigRun = \<lparr>schedule = (0, Start) # map (\<lambda>d. (0, Select (Document d))) (exRecords 0 2500)
                             @ [(0, Select ChannelClosed)],
               StreamDocument = None, producerFirst = True\<rparr>"

text \<open>The builder with document limit 1 after it has accepted the record with key 1.\<close>

definition exOne :: BufferedBulkInserter where
  "exOne = (exBuilder 1)\<lparr>bulk := wcb_Insert (bulk (exBuilder 1)) [1, 0], byteCount := 2,
             docCount := 1\<rparr>"

section \<open>The batch builder: accepting a record\<close>

lemma wrap64_id: "- (2 ^ 63) \<le> x \<Longrightarrow> x < 2 ^ 63 \<Longrightarrow> wrap64 x = x"
  by (simp add: wrap64_def)

lemma flushed_append: "flushed (xs @ ys) = flushed xs @ flushed ys"
  by (induction xs rule: flushed.induct) simp_all

lemma sent_wcb_Run:
  "wcb_Run E wcb w = (err, w') \<Longrightarrow> flushed (sent w') = flushed (sent w) @ [wcb_docs wcb]"
  by (auto simp: wcb_Run_def roundTrip_def flushed_append Let_def
      split: prod.splits option.splits if_splits)

lemma Flush_empty: "docCount bb = 0 \<Longrightarrow> Flush E bb w = (None, bb, w)"
  by (simp add: Flush_def)

lemma Flush_nonempty:
  "docCount bb \<noteq> 0 \<Longrightarrow> Flush E bb w = (err, bb', w') \<Longrightarrow>
     bb' = bb\<lparr>bulk := wcb_Reset (bulk bb)\<rparr> \<and> wcb_Run E (bulk bb) w = (err, w')"
  by (auto simp: Flush_def split: prod.splits)

lemma Flush_counters:
  "Flush E bb w = (err, bb', w') \<Longrightarrow>
     docCount bb' = docCount bb \<and> byteCount bb' = byteCount bb \<and> docLimit bb' = docLimit bb"
  by (auto simp: Flush_def split: prod.splits if_splits)

lemma exEnv_sel:
  "marshal exEnv = exMarshal" "server exEnv = exServer" "GetSession exEnv = None"
  "GetNodeType exEnv = Inr 0" "BuildWriteConcern exEnv = (\<lambda>wc nt. None)"
  "removeBlankFields exEnv = (\<lambda>d. d)"
  by (simp_all add: exEnv_def)

lemma exMarshal_exDoc:
  "0 \<le> k \<Longrightarrow> k < 65536 \<Longrightarrow>
     exMarshal (exDoc k) = Inr [word_of_int (k mod 256), word_of_int (k div 256)]"
  by (simp add: exMarshal_def exDoc_def)

lemma exOne_reached: "Insert exEnv (exBuilder 1) (exWorld []) (exDoc 1) = (None, exOne, exWorld [])"
  by (simp add: Insert_def exEnv_sel exMarshal_exDoc full_def exBuilder_def
      NewBufferedBulkInserter_def MaxBulkSize_def BulkDocLimit_def wrap64_def exOne_def)

lemma Insert_docLimit: "Insert E bb w d = (err, bb', w') \<Longrightarrow> docLimit bb' = docLimit bb"
  by (auto simp: Insert_def dest: Flush_counters split: sum.splits if_splits prod.splits)

lemma Insert_docCount:
  "marshal E d = Inr r \<Longrightarrow> Insert E bb w d = (err, bb', w') \<Longrightarrow>
     docCount bb' = wrap64 (docCount bb + 1)"
  by (auto simp: Insert_def dest: Flush_counters split: if_splits prod.splits)

lemma Insert_when_full:
  assumes m: "marshal E doc = Inr rawBytes"
    and r: "Insert E bb w doc = (err, bb', w')"
    and f: "Flush E bb w = (ferr, fbb, fw)"
    and t: "full bb (length rawBytes)"
  shows "err = ferr" and "w' = fw"
    and "wcb_docs (bulk bb') = wcb_docs (bulk fbb) @ [rawBytes]"
    and "docCount bb' = wrap64 (docCount bb + 1)"
    and "byteCount bb' = wrap64 (byteCount bb + int (length rawBytes))"
    and "docCount bb \<noteq> 0 \<Longrightarrow> flushed (sent w') = flushed (sent w) @ [wcb_docs (bulk bb)]"
    and "docCount bb \<noteq> 0 \<Longrightarrow> wcb_docs (bulk bb') = [rawBytes]"
proof -
  from r m f t have e: "err = ferr" "w' = fw"
    and b: "bb' = fbb\<lparr>docCount := wrap64 (docCount fbb + 1),
                       byteCount := wrap64 (byteCount fbb + int (length rawBytes)),
                       bulk := wcb_Insert (bulk fbb) rawBytes\<rparr>"
    by (simp_all add: Insert_def)
  have c: "docCount fbb = docCount bb" "byteCount fbb = byteCount bb"
    using Flush_counters [OF f] by simp_all
  have d: "docCount bb \<noteq> 0 \<longrightarrow>
             flushed (sent fw) = flushed (sent w) @ [wcb_docs (bulk bb)] \<and> wcb_docs (bulk fbb) = []"
    using Flush_nonempty [OF _ f] sent_wcb_Run [of E "bulk bb" w ferr fw]
    by (auto simp: wcb_Reset_def)
  show "err = ferr" and "w' = fw" by (fact e)+
  show "wcb_docs (bulk bb') = wcb_docs (bulk fbb) @ [rawBytes]"
    using b by (simp add: wcb_Insert_def)
  show "docCount bb' = wrap64 (docCount bb + 1)" using b c by simp
  show "byteCount bb' = wrap64 (byteCount bb + int (length rawBytes))" using b c by simp
  show "flushed (sent w') = flushed (sent w) @ [wcb_docs (bulk bb)]" if "docCount bb \<noteq> 0"
    using that d e by simp
  show "wcb_docs (bulk bb') = [rawBytes]" if "docCount bb \<noteq> 0"
    using that d b by (simp add: wcb_Insert_def)
qed

lemma Insert_when_room:
  assumes m: "marshal E doc = Inr rawBytes"
    and r: "Insert E bb w doc = (err, bb', w')"
    and t: "\<not> full bb (length rawBytes)"
  shows "err = None" and "w' = w"
    and "wcb_docs (bulk bb') = wcb_docs (bulk bb) @ [rawBytes]"
    and "docCount bb' = wrap64 (docCount bb + 1)"
    and "byteCount bb' = wrap64 (byteCount bb + int (length rawBytes))"
  using assms by (auto simp: Insert_def wcb_Insert_def)

text \<open>
  C3. For every builder state and every record that serializes to \<open>rawBytes\<close>: when the
  document count has reached the document limit, or the byte count plus the size of the record
  exceeds the byte ceiling, or the document count has reached the hard document ceiling,
  \<^verbatim>\<open>Insert\<close> flushes the current batch and returns the error of that flush; otherwise it
  returns nil and sends nothing. In both cases the record is appended to the buffer and both
  counters are advanced. The batch that a triggered flush sends is the buffer as it was before
  the call, without the new record, so a flush failure is returned by the call after the ones
  that buffered the failing data.
\<close>

theorem Insert_accepts:
  assumes m: "marshal E doc = Inr rawBytes"
    and r: "Insert E bb w doc = (err, bb', w')"
    and f: "Flush E bb w = (ferr, fbb, fw)"
  shows "(if docCount bb \<ge> docLimit bb
             \<or> wrap64 (byteCount bb + int (length rawBytes)) > MaxBulkSize
             \<or> docCount bb \<ge> BulkDocLimit
          then err = ferr \<and> w' = fw \<and> wcb_docs (bulk bb') = wcb_docs (bulk fbb) @ [rawBytes]
               \<and> (docCount bb \<noteq> 0 \<longrightarrow>
                    flushed (sent w') = flushed (sent w) @ [wcb_docs (bulk bb)]
                    \<and> wcb_docs (bulk bb') = [rawBytes])
          else err = None \<and> w' = w \<and> wcb_docs (bulk bb') = wcb_docs (bulk bb) @ [rawBytes])
       \<and> docCount bb' = wrap64 (docCount bb + 1)
       \<and> byteCount bb' = wrap64 (byteCount bb + int (length rawBytes))"
proof (cases "full bb (length rawBytes)")
  case True
  note I = Insert_when_full [OF m r f True]
  have "docCount bb \<noteq> 0 \<longrightarrow>
          flushed (sent w') = flushed (sent w) @ [wcb_docs (bulk bb)]
          \<and> wcb_docs (bulk bb') = [rawBytes]"
    using I(6,7) by blast
  then show ?thesis using True I(1-5) by (simp add: full_def)
next
  case False
  note I = Insert_when_room [OF m r False]
  show ?thesis using False I by (simp add: full_def)
qed

theorem Insert_accepts_witness:
  "marshal exEnv (exDoc 2) = Inr [2, 0]
   \<and> (\<exists>err bb' w'. Insert exEnv exOne (exWorld []) (exDoc 2) = (err, bb', w')
         \<and> err = fst (Flush exEnv exOne (exWorld []))
         \<and> flushed (sent w') = [[[1, 0]]] \<and> wcb_docs (bulk bb') = [[2, 0]]
         \<and> docCount bb' = 2 \<and> byteCount bb' = 4)"
proof -
  have m: "marshal exEnv (exDoc 2) = Inr [2, 0]"
    by (simp add: exEnv_sel exMarshal_exDoc)
  obtain err bb' w' where r: "Insert exEnv exOne (exWorld []) (exDoc 2) = (err, bb', w')"
    by (cases "Insert exEnv exOne (exWorld []) (exDoc 2)") auto
  obtain ferr fbb fw where f: "Flush exEnv exOne (exWorld []) = (ferr, fbb, fw)"
    by (cases "Flush exEnv exOne (exWorld [])") auto
  show ?thesis
    using m r f Insert_accepts [OF m r f]
    by (auto simp: exOne_def exBuilder_def NewBufferedBulkInserter_def NewWriteCommandBulk_def
        wcb_Reset_def wcb_Insert_def BulkDocLimit_def MaxBulkSize_def wrap64_def exWorld_def)
qed

text \<open>
  C10. For every builder state and every document whose serialization fails, \<^verbatim>\<open>Insert\<close>
  returns the encoding error and leaves the builder and the world as they were: nothing is
  flushed, the document is not buffered, and both counters keep their values.
\<close>

theorem Insert_encoding_error:
  assumes "marshal E doc = Inl msg"
  shows "Insert E bb w doc = (Some (Errorf (''bson encoding error: '' @ msg)), bb, w)"
  using assms by (simp add: Insert_def)

theorem Insert_encoding_error_witness:
  "marshal exEnv [(''pad'', 3)] = Inl ''no _id''
   \<and> Insert exEnv exOne (exWorld []) [(''pad'', 3)]
       = (Some (Errorf ''bson encoding error: no _id''), exOne, exWorld [])"
proof -
  have h: "marshal exEnv [(''pad'', 3)] = Inl ''no _id''"
    by (simp add: exEnv_def exMarshal_def)
  show ?thesis using h Insert_encoding_error [OF h, of exOne "exWorld []"] by simp
qed

section \<open>The batch builder: flushing\<close>

text \<open>
  C5. The claim: after every flush of a batch that is not empty, the buffered documents are
  cleared and both counters are back at zero. \<^verbatim>\<open>Flush\<close> resets the bulk only; the method
  \<^verbatim>\<open>resetBulk\<close>, which zeroes the counters, is never called. Flushing the builder that holds
  one record of two bytes sends that record, empties the buffer, and leaves the document count
  at 1 and the byte count at 2.
\<close>

theorem Flush_keeps_counters:
  "(case Flush exEnv exOne (exWorld []) of
      (err, bb', w') \<Rightarrow>
        (err, flushed (sent w'), wcb_docs (bulk bb'), docCount bb', byteCount bb'))
   = (None, [[[1, 0]]], [], 1, 2)"
  by (simp add: Flush_def wcb_Run_def roundTrip_def exOne_def exBuilder_def
      NewBufferedBulkInserter_def NewWriteCommandBulk_def wcb_Reset_def wcb_Insert_def
      exWorld_def exEnv_def exServer_def exKey_def)

text \<open>
  C4. The claim: a second \<^verbatim>\<open>Flush\<close> right after the first is a no-op with the same result.
  The document count is still 1 after the first flush, so the second one runs the bulk again:
  a second write command, with no documents, goes on the wire, and the store answers it with
  an error.
\<close>

theorem Flush_twice:
  "(case Flush exEnv exOne (exWorld []) of
      (err1, bb1, w1) \<Rightarrow>
        (case Flush exEnv bb1 w1 of
           (err2, bb2, w2) \<Rightarrow> (err1, err2, flushed (sent w2))))
   = (None, Some (DriverError ''no documents''), [[[1, 0]], []])"
  by (simp add: Flush_def wcb_Run_def roundTrip_def exOne_def exBuilder_def
      NewBufferedBulkInserter_def NewWriteCommandBulk_def wcb_Reset_def wcb_Insert_def
      exWorld_def exEnv_def exServer_def exKey_def)

section \<open>The batch builder: the ceilings\<close>

lemma batchBytes_simps [simp]:
  "batchBytes [] = 0" "batchBytes (xs @ [r]) = batchBytes xs + int (length r)"
  "batchBytes [r] = int (length r)"
  by (simp_all add: batchBytes_def)

lemma batchBytes_nonneg: "0 \<le> batchBytes b"
  by (induction b) (simp_all add: batchBytes_def)

lemma Flush_inv:
  assumes inv: "builderInv dl bb" and dl: "1 \<le> dl"
    and log: "\<forall>b\<in>set (flushed (sent w)). okBatch dl b"
    and r: "Flush E bb w = (err, bb', w')"
  shows "builderInv dl bb' \<and> (\<forall>b\<in>set (flushed (sent w')). okBatch dl b)
         \<and> docCount bb' = docCount bb \<and> byteCount bb' = byteCount bb
         \<and> (docCount bb \<noteq> 0 \<longrightarrow> wcb_docs (bulk bb') = [])"
proof (cases "docCount bb = 0")
  case True
  with r inv log show ?thesis by (simp add: Flush_def)
next
  case False
  from Flush_nonempty [OF False r]
  have b: "bb' = bb\<lparr>bulk := wcb_Reset (bulk bb)\<rparr>" and run: "wcb_Run E (bulk bb) w = (err, w')"
    by simp_all
  have s: "flushed (sent w') = flushed (sent w) @ [wcb_docs (bulk bb)]"
    using sent_wcb_Run [OF run] .
  have "okBatch dl []" using dl by (simp add: okBatch_def BulkDocLimit_def MaxBulkSize_def)
  with inv b have "builderInv dl bb'" by (simp add: builderInv_def wcb_Reset_def)
  moreover have "\<forall>b\<in>set (flushed (sent w')). okBatch dl b"
    using log inv s by (auto simp: builderInv_def)
  ultimately show ?thesis using b by (simp add: wcb_Reset_def)
qed

lemma Insert_inv:
  assumes inv: "builderInv dl bb" and dl: "1 \<le> dl"
    and c: "docCount bb + 1 < 2 ^ 63"
    and bt: "byteCount bb + callBytes E (CallInsert d) < 2 ^ 63"
    and log: "\<forall>b\<in>set (flushed (sent w)). okBatch dl b"
    and r: "Insert E bb w d = (err, bb', w')"
  shows "builderInv dl bb' \<and> (\<forall>b\<in>set (flushed (sent w')). okBatch dl b)
         \<and> docCount bb' \<le> docCount bb + 1
         \<and> byteCount bb' = byteCount bb + callBytes E (CallInsert d)"
proof (cases "marshal E d")
  case (Inl msg)
  with r inv log show ?thesis by (simp add: Insert_def callBytes_def)
next
  case (Inr rawBytes)
  obtain ferr fbb fw where f: "Flush E bb w = (ferr, fbb, fw)"
    by (cases "Flush E bb w") auto
  note F = Flush_inv [OF inv dl log f]
  have n0: "0 \<le> docCount bb" "0 \<le> byteCount bb"
    using inv by (auto simp: builderInv_def)
  have cb: "callBytes E (CallInsert d) = int (length rawBytes)"
    using Inr by (simp add: callBytes_def)
  have w1: "wrap64 (docCount bb + 1) = docCount bb + 1"
    using c n0 by (intro wrap64_id) auto
  have w2: "wrap64 (byteCount bb + int (length rawBytes)) = byteCount bb + int (length rawBytes)"
    using bt n0 cb by (intro wrap64_id) auto
  have lim: "docLimit bb' = dl"
    using Insert_docLimit [OF r] inv by (simp add: builderInv_def)
  show ?thesis
  proof (cases "full bb (length rawBytes)")
    case True
    note I = Insert_when_full [OF Inr r f True]
    have emp: "wcb_docs (bulk fbb) = []"
    proof (cases "docCount bb = 0")
      case True
      then show ?thesis using f inv n0 by (simp add: Flush_def builderInv_def)
    next
      case False
      then show ?thesis using F by simp
    qed
    have "okBatch dl [rawBytes]"
      using dl by (simp add: okBatch_def BulkDocLimit_def)
    then have "builderInv dl bb'"
      using I(3,4,5) w1 w2 emp lim n0 by (simp add: builderInv_def)
    then show ?thesis using F I(2,4,5) w1 w2 cb by simp
  next
    case False
    note I = Insert_when_room [OF Inr r False]
    have "okBatch dl (wcb_docs (bulk bb) @ [rawBytes])"
      using False inv w2 by (auto simp: okBatch_def builderInv_def full_def)
    then have "builderInv dl bb'"
      using I(3,4,5) w1 w2 lim n0 inv by (simp add: builderInv_def)
    then show ?thesis using log I(2,4,5) w1 w2 cb by simp
  qed
qed

lemma callBytes_nonneg: "0 \<le> callBytes E c"
  by (simp add: callBytes_def split: call.splits sum.splits)

lemma calls_inv:
  assumes "builderInv dl bb" and "1 \<le> dl" and "0 \<le> docCount bb"
    and "docCount bb + int (length cs) < 2 ^ 63"
    and "byteCount bb + sum_list (map (callBytes E) cs) < 2 ^ 63"
    and "\<forall>b\<in>set (flushed (sent w)). okBatch dl b"
    and "calls E bb w cs = (bb', w')"
  shows "\<forall>b\<in>set (flushed (sent w')). okBatch dl b"
  using assms
proof (induction cs arbitrary: bb w)
  case Nil
  then show ?case by simp
next
  case (Cons c cs)
  have rest: "0 \<le> sum_list (map (callBytes E) cs)"
    by (auto intro!: sum_list_nonneg simp: callBytes_nonneg)
  show ?case
  proof (cases c)
    case (CallInsert d)
    obtain err bb1 w1 where i: "Insert E bb w d = (err, bb1, w1)"
      by (cases "Insert E bb w d") auto
    have c1: "docCount bb + 1 < 2 ^ 63" using Cons.prems(4) by simp
    have b1: "byteCount bb + callBytes E (CallInsert d) < 2 ^ 63"
      using Cons.prems(5) rest CallInsert by simp
    note I = Insert_inv [OF Cons.prems(1) Cons.prems(2) c1 b1 Cons.prems(6) i]
    have m: "marshal E d = Inl msg \<Longrightarrow> docCount bb1 = docCount bb" for msg
      using i by (simp add: Insert_def)
    have n: "0 \<le> docCount bb1"
    proof (cases "marshal E d")
      case (Inl msg)
      then show ?thesis using m Cons.prems(3) by simp
    next
      case (Inr rawBytes)
      have "wrap64 (docCount bb + 1) = docCount bb + 1"
        using c1 Cons.prems(3) by (intro wrap64_id) auto
      then show ?thesis using Insert_docCount [OF Inr i] Cons.prems(3) by simp
    qed
    show ?thesis
      using Cons.IH [of bb1 w1] I n Cons.prems CallInsert i by simp
  next
    case CallFlush
    obtain err bb1 w1 where f: "Flush E bb w = (err, bb1, w1)"
      by (cases "Flush E bb w") auto
    note F = Flush_inv [OF Cons.prems(1) Cons.prems(2) Cons.prems(6) f]
    show ?thesis
      using Cons.IH [of bb1 w1] F Cons.prems CallFlush f by (simp add: callBytes_def)
  qed
qed

lemma builderInv_New: "1 \<le> dl \<Longrightarrow> builderInv dl (NewBufferedBulkInserter dl coe b)"
  by (simp add: builderInv_def NewBufferedBulkInserter_def wcb_Reset_def okBatch_def
      BulkDocLimit_def MaxBulkSize_def)

text \<open>
  C2, as amended. A client makes any sequence of calls of \<^verbatim>\<open>Insert\<close> and \<^verbatim>\<open>Flush\<close> on a new
  builder whose document limit is at least 1, few enough for the 64-bit counters not to
  overflow. Then every batch that is flushed holds at most \<open>min docLimit 1000\<close> documents, and
  its serialized size is at most the byte ceiling unless it is a single document.
\<close>

theorem flushed_batches_within_ceilings:
  assumes "1 \<le> dl" and "int (length cs) < 2 ^ 63"
    and "sum_list (map (callBytes E) cs) < 2 ^ 63" and "sent w = []"
  shows "\<forall>batch\<in>set (flushed (sent (snd (calls E (NewBufferedBulkInserter dl coe b) w cs)))).
           int (length batch) \<le> min dl BulkDocLimit
           \<and> (batchBytes batch \<le> MaxBulkSize \<or> length batch = 1)"
proof -
  obtain bb' w' where c: "calls E (NewBufferedBulkInserter dl coe b) w cs = (bb', w')"
    by (cases "calls E (NewBufferedBulkInserter dl coe b) w cs") auto
  have "\<forall>batch\<in>set (flushed (sent w')). okBatch dl batch"
    using calls_inv [OF builderInv_New [OF assms(1)] assms(1) _ _ _ _ c] assms
    by (simp add: NewBufferedBulkInserter_def)
  then show ?thesis using c by (simp add: okBatch_def)
qed

theorem flushed_batches_within_ceilings_witness:
  "(1::int) \<le> 2
   \<and> flushed (sent (snd (calls exEnv (NewBufferedBulkInserter 2 True (NewWriteCommandBulk ''c'' False ''majority''))
        (exWorld []) [CallInsert (exDoc 1), CallInsert (exDoc 2), CallInsert (exDoc 3), CallFlush])))
       = [[[1, 0], [2, 0]], [[3, 0]]]
   \<and> int (length [[1, 0], [2, 0 :: 8 word]]) \<le> min 2 BulkDocLimit
   \<and> batchBytes [[1, 0], [2, 0]] \<le> MaxBulkSize"
proof -
  let ?cs = "[CallInsert (exDoc 1), CallInsert (exDoc 2), CallInsert (exDoc 3), CallFlush]"
  have h1: "(1::int) \<le> 2" by simp
  have h2: "int (length ?cs) < 2 ^ 63" by simp
  have h3: "sum_list (map (callBytes exEnv) ?cs) < 2 ^ 63"
    by (simp add: callBytes_def exEnv_sel exMarshal_exDoc)
  have h4: "sent (exWorld []) = []" by (simp add: exWorld_def)
  have e: "flushed (sent (snd (calls exEnv (NewBufferedBulkInserter 2 True (NewWriteCommandBulk ''c'' False ''majority''))
        (exWorld []) ?cs))) = [[[1, 0], [2, 0]], [[3, 0]]]"
    by (simp add: Insert_def Flush_def full_def NewBufferedBulkInserter_def exMarshal_exDoc
        NewWriteCommandBulk_def wcb_Reset_def wcb_Insert_def wcb_Run_def roundTrip_def
        MaxBulkSize_def BulkDocLimit_def wrap64_def exWorld_def exEnv_sel exServer_def exKey_def)
  show ?thesis
    using flushed_batches_within_ceilings [OF h1 h2 h3 h4, of True "NewWriteCommandBulk ''c'' False ''majority''"] e
    by (simp add: batchBytes_def MaxBulkSize_def)
qed

lemma exMarshal_exPadded:
  "0 \<le> k \<Longrightarrow> k < 65536 \<Longrightarrow> 0 \<le> n \<Longrightarrow>
     \<exists>r. marshal exEnv (exPadded k n) = Inr r \<and> int (length r) = n + 2"
  by (simp add: exEnv_def exMarshal_def exPadded_def)

text \<open>
  C2, as stated, fails in two ways. A record whose serialized size alone exceeds the byte
  ceiling is buffered and flushed as a batch of its own, of 16790002 bytes here. And with a
  document limit of 0 the first record is still buffered and flushed, a batch of one record
  where \<open>min docLimit 1000\<close> is 0.
\<close>

theorem oversized_record_counterexample:
  "map batchBytes (flushed (sent (snd (calls exEnv (exBuilder 1000) (exWorld [])
       [CallInsert (exPadded 1 16790000), CallFlush])))) = [16790002]
   \<and> MaxBulkSize < 16790002
   \<and> map length (flushed (sent (snd (calls exEnv (exBuilder 0) (exWorld [])
       [CallInsert (exDoc 1), CallFlush])))) = [1]
   \<and> min 0 BulkDocLimit < 1"
proof -
  obtain r where m: "marshal exEnv (exPadded 1 16790000) = Inr r"
    and l: "int (length r) = 16790002"
    using exMarshal_exPadded [of 1 16790000] by auto
  define bb1 where
    "bb1 = (exBuilder 1000)\<lparr>docCount := 1, byteCount := 16790002,
                            bulk := wcb_Insert (bulk (exBuilder 1000)) r\<rparr>"
  have i: "Insert exEnv (exBuilder 1000) (exWorld []) (exPadded 1 16790000)
             = (None, bb1, exWorld [])"
    using m l
    by (simp add: Insert_def Flush_def full_def exBuilder_def NewBufferedBulkInserter_def
        MaxBulkSize_def wrap64_def bb1_def)
  obtain err bb2 w2 where f: "Flush exEnv bb1 (exWorld []) = (err, bb2, w2)"
    by (cases "Flush exEnv bb1 (exWorld [])") auto
  have "docCount bb1 \<noteq> 0" by (simp add: bb1_def)
  from Flush_nonempty [OF this f] have "wcb_Run exEnv (bulk bb1) (exWorld []) = (err, w2)"
    by simp
  from sent_wcb_Run [OF this] have "flushed (sent w2) = [[r]]"
    by (simp add: exWorld_def bb1_def wcb_Insert_def exBuilder_def NewBufferedBulkInserter_def
        NewWriteCommandBulk_def wcb_Reset_def)
  then have big: "map batchBytes (flushed (sent (snd (calls exEnv (exBuilder 1000) (exWorld [])
       [CallInsert (exPadded 1 16790000), CallFlush])))) = [16790002]"
    using i f l by simp
  have zero: "map length (flushed (sent (snd (calls exEnv (exBuilder 0) (exWorld [])
       [CallInsert (exDoc 1), CallFlush])))) = [1]"
    by (simp add: Insert_def Flush_def full_def exBuilder_def NewBufferedBulkInserter_def
        NewWriteCommandBulk_def wcb_Reset_def wcb_Insert_def wcb_Run_def roundTrip_def
        MaxBulkSize_def BulkDocLimit_def wrap64_def exWorld_def exEnv_sel exServer_def exKey_def
        exMarshal_exDoc)
  show ?thesis using big zero by (simp add: MaxBulkSize_def BulkDocLimit_def)
qed

section \<open>ValidateSettings: upsert, insertion order and the number of workers\<close>

lemma andThen_None:
  "andThen f g imp = (None, imp') \<Longrightarrow> \<exists>imp1. f imp = (None, imp1) \<and> g imp1 = (None, imp')"
  by (auto simp: andThen_def split: prod.splits option.splits)

lemma vsDatabase_keeps:
  "vsDatabase L imp = (e, imp') \<Longrightarrow>
     IngestOptions imp' = IngestOptions imp \<and> upsertFields imp' = upsertFields imp"
  by (auto simp: vsDatabase_def Let_def split: option.splits if_splits)

lemma vsType_keeps:
  "vsType L imp = (e, imp') \<Longrightarrow>
     IngestOptions imp' = IngestOptions imp \<and> upsertFields imp' = upsertFields imp"
  by (auto simp: vsType_def Let_def split: if_splits)

lemma vsHeaders_keeps: "vsHeaders imp = (e, imp') \<Longrightarrow> imp' = imp"
  by (auto simp: vsHeaders_def Let_def split: if_splits)

lemma vsUpsert_None:
  "vsUpsert L imp = (None, imp') \<Longrightarrow>
     Upsert (IngestOptions imp')
       = (Upsert (IngestOptions imp) \<or> UpsertFields (IngestOptions imp) \<noteq> [])
     \<and> MaintainInsertionOrder (IngestOptions imp') = MaintainInsertionOrder (IngestOptions imp)
     \<and> (Upsert (IngestOptions imp) \<and> UpsertFields (IngestOptions imp) = []
          \<longrightarrow> upsertFields imp' = [''_id''])"
  by (auto simp: vsUpsert_def Let_def split: option.splits if_splits)

lemma vsWorkers_sets:
  "vsWorkers imp = (e, imp') \<Longrightarrow>
     e = None
     \<and> MaintainInsertionOrder (IngestOptions imp')
         = (MaintainInsertionOrder (IngestOptions imp) \<or> Upsert (IngestOptions imp))
     \<and> (MaintainInsertionOrder (IngestOptions imp') \<longrightarrow> NumInsertionWorkers (IngestOptions imp') = 1)
     \<and> 1 \<le> NumInsertionWorkers (IngestOptions imp')
     \<and> upsertFields imp' = upsertFields imp"
  by (auto simp: vsWorkers_def Let_def split: if_splits)

lemma vsArgs_keeps:
  "vsArgs args imp = (e, imp') \<Longrightarrow>
     IngestOptions imp' = IngestOptions imp \<and> upsertFields imp' = upsertFields imp"
  by (auto simp: vsArgs_def split: if_splits list.splits)

lemma vsCollection_keeps:
  "vsCollection L imp = (e, imp') \<Longrightarrow>
     IngestOptions imp' = IngestOptions imp \<and> upsertFields imp' = upsertFields imp"
  by (auto simp: vsCollection_def Let_def split: option.splits if_splits)

lemma ValidateSettings_None:
  assumes "ValidateSettings L args imp = (None, imp')"
  shows "MaintainInsertionOrder (IngestOptions imp')
           = (MaintainInsertionOrder (IngestOptions imp) \<or> Upsert (IngestOptions imp)
               \<or> UpsertFields (IngestOptions imp) \<noteq> [])"
    and "MaintainInsertionOrder (IngestOptions imp') \<longrightarrow> NumInsertionWorkers (IngestOptions imp') = 1"
    and "1 \<le> NumInsertionWorkers (IngestOptions imp')"
    and "Upsert (IngestOptions imp) \<and> UpsertFields (IngestOptions imp) = []
          \<longrightarrow> upsertFields imp' = [''_id'']"
proof -
  from assms obtain i1 i2 i3 i4 i5 i6 where
    s1: "vsDatabase L imp = (None, i1)" and s2: "vsType L i1 = (None, i2)"
    and s3: "vsHeaders i2 = (None, i3)" and s4: "vsUpsert L i3 = (None, i4)"
    and s5: "vsWorkers i4 = (None, i5)" and s6: "vsArgs args i5 = (None, i6)"
    and s7: "vsCollection L i6 = (None, imp')"
    unfolding ValidateSettings_def by (blast dest: andThen_None)
  note k = vsDatabase_keeps [OF s1] vsType_keeps [OF s2] vsHeaders_keeps [OF s3]
    vsUpsert_None [OF s4] vsWorkers_sets [OF s5] vsArgs_keeps [OF s6] vsCollection_keeps [OF s7]
  show "MaintainInsertionOrder (IngestOptions imp')
           = (MaintainInsertionOrder (IngestOptions imp) \<or> Upsert (IngestOptions imp)
               \<or> UpsertFields (IngestOptions imp) \<noteq> [])"
    using k by auto
  show "MaintainInsertionOrder (IngestOptions imp') \<longrightarrow> NumInsertionWorkers (IngestOptions imp') = 1"
    using k by auto
  show "1 \<le> NumInsertionWorkers (IngestOptions imp')"
    using k by auto
  show "Upsert (IngestOptions imp) \<and> UpsertFields (IngestOptions imp) = []
          \<longrightarrow> upsertFields imp' = [''_id'']"
    using k by auto
qed

lemma goroutineDone_length: "length (goroutines (goroutineDone i e P)) = length (goroutines P)"
  by (simp add: goroutineDone_def Let_def split: option.splits)

lemma poolStep_length: "length (goroutines (poolStep E P ev)) = length (goroutines P)"
  by (auto simp: poolStep_def goroutineDone_length
      split: prod.splits goroutine.splits act.splits sum.splits option.splits)

lemma runPool_length: "length (goroutines (runPool E P sched)) = length (goroutines P)"
  unfolding runPool_def by (induction sched arbitrary: P) (simp_all add: poolStep_length)

lemma exValidated_eq: "ValidateSettings exLib [] exUpsertImp = (None, exValidated)"
  by (simp add: ValidateSettings_def andThen_def vsDatabase_def vsType_def vsHeaders_def
      vsUpsert_def vsWorkers_def vsArgs_def vsCollection_def exLib_def exUpsertImp_def exImp_def
      exValidated_def JSON_def CSV_def TSV_def)

text \<open>
  C6. For settings that \<^verbatim>\<open>ValidateSettings\<close> accepts: when upsert is asked for, by the flag or
  by naming upsert fields, \<^verbatim>\<open>MaintainInsertionOrder\<close> is on afterwards; it stays on when it
  was on; and when it is on, the number of insertion workers is 1, whatever was asked for, and
  \<^verbatim>\<open>ingestDocuments\<close> runs exactly one worker goroutine.
\<close>

theorem ordered_mode_single_worker:
  assumes "ValidateSettings L args imp = (None, imp')"
  shows "(Upsert (IngestOptions imp) \<or> UpsertFields (IngestOptions imp) \<noteq> []
            \<longrightarrow> MaintainInsertionOrder (IngestOptions imp'))
       \<and> (MaintainInsertionOrder (IngestOptions imp)
            \<longrightarrow> MaintainInsertionOrder (IngestOptions imp'))
       \<and> (MaintainInsertionOrder (IngestOptions imp')
            \<longrightarrow> NumInsertionWorkers (IngestOptions imp') = 1
                \<and> length (goroutines (snd (ingestDocuments E imp' w sched))) = 1)"
  using ValidateSettings_None [OF assms]
  by (auto simp: ingestDocuments_def Let_def runPool_length numInsertionWorkers_def)

theorem ordered_mode_single_worker_witness:
  "ValidateSettings exLib [] exUpsertImp = (None, exValidated)
   \<and> Upsert (IngestOptions exUpsertImp) \<and> NumInsertionWorkers (IngestOptions exUpsertImp) = 4
   \<and> MaintainInsertionOrder (IngestOptions exValidated)
   \<and> NumInsertionWorkers (IngestOptions exValidated) = 1
   \<and> length (goroutines (snd (ingestDocuments exEnv exValidated (exWorld []) [(0, Start)]))) = 1"
proof -
  have u: "Upsert (IngestOptions exUpsertImp)" "NumInsertionWorkers (IngestOptions exUpsertImp) = 4"
    by (simp_all add: exUpsertImp_def)
  show ?thesis
    using ordered_mode_single_worker [OF exValidated_eq, of exEnv "exWorld []" "[(0, Start)]"]
      exValidated_eq u
    by simp
qed

section \<open>The upserter\<close>

lemma upserter_Insert_sent:
  "sent (snd (upserter_Insert E imp w d))
     = sent w @ [case constructUpsertDocument (upsertFields imp) d of
                   None \<Rightarrow> CollInsert d | Some sel \<Rightarrow> CollUpsert sel d]"
  by (simp add: upserter_Insert_def roundTrip_def split: option.splits prod.splits)

text \<open>
  C7. With key fields, the selector gives for each key field, in order, the value the record
  has for it, and the upserter sends an upsert with that selector; for key fields \<open>a\<close> and the
  record with \<open>a\<close> and \<open>b\<close> the selector is the field \<open>a\<close> with its value. Without key
  fields there is no selector and the upserter sends a plain insert. When the settings ask for
  upsert without upsert fields, \<^verbatim>\<open>ValidateSettings\<close> makes \<^verbatim>\<open>_id\<close> the only key field.
\<close>

theorem upsert_selector:
  "(keys \<noteq> [] \<longrightarrow>
      (\<exists>sel. constructUpsertDocument keys d = Some sel
         \<and> map fst sel = keys \<and> map snd sel = map (map_of d) keys
         \<and> sent (snd (upserter_Insert E (imp\<lparr>upsertFields := keys\<rparr>) w d))
             = sent w @ [CollUpsert sel d]))
   \<and> constructUpsertDocument [] d = None
   \<and> sent (snd (upserter_Insert E (imp\<lparr>upsertFields := []\<rparr>) w d)) = sent w @ [CollInsert d]
   \<and> constructUpsertDocument [''a''] [(''a'', v5), (''b'', v7)] = Some [(''a'', Some v5)]
   \<and> (ValidateSettings L args imp = (None, imp') \<and> Upsert (IngestOptions imp)
        \<and> UpsertFields (IngestOptions imp) = [] \<longrightarrow> upsertFields imp' = [''_id''])"
proof -
  have a: "keys \<noteq> [] \<Longrightarrow> constructUpsertDocument keys d = Some (map (\<lambda>key. (key, map_of d key)) keys)"
    by (cases keys) (simp_all add: constructUpsertDocument_def)
  have b: "constructUpsertDocument [] d = None"
    by (simp add: constructUpsertDocument_def)
  have c: "constructUpsertDocument [''a''] [(''a'', v5), (''b'', v7)] = Some [(''a'', Some v5)]"
    by (simp add: constructUpsertDocument_def)
  have e: "ValidateSettings L args imp = (None, imp') \<Longrightarrow> Upsert (IngestOptions imp)
        \<Longrightarrow> UpsertFields (IngestOptions imp) = [] \<Longrightarrow> upsertFields imp' = [''_id'']"
    using ValidateSettings_None(4) by blast
  show ?thesis
    using a b c e by (auto simp: upserter_Insert_sent comp_def)
qed

theorem upsert_selector_witness:
  "[''_id''] \<noteq> []
   \<and> constructUpsertDocument [''_id''] [(''_id'', 5 :: int), (''b'', 7)] = Some [(''_id'', Some 5)]
   \<and> sent (snd (upserter_Insert exEnv exValidated (exWorld []) [(''_id'', 5), (''b'', 7)]))
        = [CollUpsert [(''_id'', Some 5)] [(''_id'', 5), (''b'', 7)]]
   \<and> ValidateSettings exLib [] exUpsertImp = (None, exValidated)
   \<and> Upsert (IngestOptions exUpsertImp) \<and> UpsertFields (IngestOptions exUpsertImp) = []
   \<and> upsertFields exValidated = [''_id'']"
proof -
  have u: "Upsert (IngestOptions exUpsertImp)" "UpsertFields (IngestOptions exUpsertImp) = []"
    by (simp_all add: exUpsertImp_def exImp_def)
  have k: "exValidated\<lparr>upsertFields := [''_id'']\<rparr> = exValidated"
    by (simp add: exValidated_def)
  have w: "sent (exWorld []) = ([] :: int request list)"
    by (simp add: exWorld_def)
  show ?thesis
    using upsert_selector [where keys = "[''_id'']" and d = "[(''_id'', 5 :: int), (''b'', 7)]"
        and E = exEnv and imp = exValidated and w = "exWorld []"]
      upsert_selector [where imp = exUpsertImp and L = exLib and args = "[]" and imp' = exValidated,
        of "[]" "[]" exEnv "exWorld []" 5 7]
      exValidated_eq u k w
    by (auto simp: constructUpsertDocument_def)
qed

section \<open>The worker pool on a concrete run\<close>

lemma exStopImp_sel:
  "IngestOptions exStopImp = \<lparr>Drop = False, IgnoreBlanks = False, MaintainInsertionOrder = False,
                        NumInsertionWorkers = 2, StopOnError = True, Upsert = False,
                        UpsertFields = [], WriteConcern = ''majority''\<rparr>"
  "ToolOptions exStopImp = \<lparr>DB = ''test'', Collection = ''c'', Host = [], Port = [],
                      NumDecodingWorkers = 1, MaxProcs = 1, BulkBufferSize = 1\<rparr>"
  "Type (InputOptions exStopImp) = ''json''"
  "Tomb exStopImp = ErrStillAlive" "insertionCount exStopImp = 0" "nodeType exStopImp = 0"
  by (simp_all add: exStopImp_def exImp_def JSON_def)

lemmas ex_step =
  poolStep_def goroutineDone_def workerSetup_def configureSession_def newInserter_def
  selectCase_def ready_def inserter_Insert_def filterIngestError_def IsConnectionError_def
  Insert_def Flush_def full_def wcb_Run_def wcb_Insert_def wcb_Reset_def wcb_Unordered_def
  roundTrip_def NewBufferedBulkInserter_def NewWriteCommandBulk_def
  MaxBulkSize_def BulkDocLimit_def wrap64_def Kill_def Dying_def JSON_def
  exEnv_sel exServer_def exKey_def exMarshal_exDoc exStopImp_sel exPool_def exB_def exCmd_def
  exErr_def

lemma exStep1:
  "poolStep exEnv (exPool 0 ErrStillAlive [1] [] [Spawned, Spawned] None) (0, Start)
     = exPool 0 ErrStillAlive [1] [] [exB [] 0 0, Spawned] None"
  by (simp add: ex_step)

lemma exStep2:
  "poolStep exEnv (exPool 0 ErrStillAlive [1] [] [exB [] 0 0, Spawned] None) (1, Start)
     = exPool 0 ErrStillAlive [1] [] [exB [] 0 0, exB [] 0 0] None"
  by (simp add: ex_step)

lemma exStep3:
  "poolStep exEnv (exPool 0 ErrStillAlive [1] [] [exB [] 0 0, exB [] 0 0] None)
       (0, Select (Document (exDoc 1)))
     = exPool 1 ErrStillAlive [1] [] [exB [[1, 0]] 1 2, exB [] 0 0] None"
  by (simp add: ex_step)

lemma exStep4:
  "poolStep exEnv (exPool 1 ErrStillAlive [1] [] [exB [[1, 0]] 1 2, exB [] 0 0] None)
       (1, Select (Document (exDoc 3)))
     = exPool 2 ErrStillAlive [1] [] [exB [[1, 0]] 1 2, exB [[3, 0]] 1 2] None"
  by (simp add: ex_step)

lemma exStep5:
  "poolStep exEnv (exPool 2 ErrStillAlive [1] [] [exB [[1, 0]] 1 2, exB [[3, 0]] 1 2] None)
       (0, Select (Document (exDoc 2)))
     = exPool 2 (Reason (Some exErr)) [1] [exCmd [[1, 0]]] [Exited, exB [[3, 0]] 1 2] (Some exErr)"
  by (simp add: ex_step)

lemma exStep6:
  "poolStep exEnv
       (exPool 2 (Reason (Some exErr)) [1] [exCmd [[1, 0]]] [Exited, exB [[3, 0]] 1 2] (Some exErr))
       (1, Select (Document (exDoc 4)))
     = exPool 3 (Reason (Some exErr)) [1, 3] [exCmd [[1, 0]], exCmd [[3, 0]]]
         [Exited, exB [[4, 0]] 2 4] (Some exErr)"
  by (simp add: ex_step)

lemma exStep7:
  "poolStep exEnv
       (exPool 2 (Reason (Some exErr)) [1] [exCmd [[1, 0]]] [Exited, exB [[3, 0]] 1 2] (Some exErr))
       (1, Select (Document [(''pad'', 3)]))
     = exPool 2 (Reason (Some exErr)) [1] [exCmd [[1, 0]]] [Exited, Exited] (Some exErr)"
  by (simp add: ex_step exMarshal_def)

lemma exIngest:
  "ingestDocuments exEnv exStopImp (exWorld [1]) sched
     = (let P = runPool exEnv (exPool 0 ErrStillAlive [1] [] [Spawned, Spawned] None) sched
        in (if list_all hasExited (goroutines P) then Some (retErr P) else None, P))"
proof -
  have h: "exStopImp\<lparr>insertionCount := 0, Tomb := ErrStillAlive\<rparr> = exStopImp"
    by (simp add: exStopImp_def exImp_def)
  show ?thesis
    unfolding exPool_def h
    by (simp add: ingestDocuments_def exWorld_def numInsertionWorkers_def
        exStopImp_sel numeral_2_eq_2)
qed

lemma exSched_run:
  "runPool exEnv (exPool 0 ErrStillAlive [1] [] [Spawned, Spawned] None) exSched
     = exPool 2 (Reason (Some exErr)) [1] [exCmd [[1, 0]]] [Exited, exB [[3, 0]] 1 2] (Some exErr)"
  by (simp only: runPool_def exSched_def foldl.simps exStep1 exStep2 exStep3 exStep4 exStep5)

lemma runPool_append: "runPool E P (s1 @ s2) = runPool E (runPool E P s1) s2"
  by (simp add: runPool_def)

lemma runPool_single: "runPool E P [ev] = poolStep E P ev"
  by (simp add: runPool_def)

section \<open>Cancellation\<close>

lemma poolStep_Exited:
  "i < length (goroutines P) \<Longrightarrow> goroutines P ! i = Exited \<Longrightarrow> poolStep E P (i, a) = P"
  by (simp add: poolStep_def)

lemma runPool_Exited:
  "i < length (goroutines P) \<Longrightarrow> goroutines P ! i = Exited \<Longrightarrow> \<forall>ev\<in>set sched. fst ev = i
     \<Longrightarrow> runPool E P sched = P"
proof (induction sched)
  case Nil
  then show ?case by (simp add: runPool_def)
next
  case (Cons ev sched)
  then have "poolStep E P ev = P"
    using poolStep_Exited [of i P E "snd ev"] by (cases ev) simp
  with Cons show ?case by (simp add: runPool_def)
qed

text \<open>
  C8, as amended. A worker in the read loop whose \<^verbatim>\<open>select\<close> takes the case of the dying tomb
  returns at once: the goroutine exits, and the counter, the error slot, the store and the log
  are as before, so nothing of its buffer is flushed. No later step of that goroutine changes
  anything, so the records it had buffered are never written.
\<close>

theorem cancelled_worker_abandons_buffer:
  assumes "i < length (goroutines P)" and "goroutines P ! i = Running ins"
    and "Dying (Tomb (pool_imp P))"
  shows "poolStep E P (i, Select TombDying) = P\<lparr>goroutines := (goroutines P)[i := Exited]\<rparr>
       \<and> (\<forall>sched. (\<forall>ev\<in>set sched. fst ev = i) \<longrightarrow>
             runPool E (poolStep E P (i, Select TombDying)) sched
               = P\<lparr>goroutines := (goroutines P)[i := Exited]\<rparr>)
       \<and> readLoop E ins (pool_imp P) (pool_world P) (TombDying # sels)
           = (Some None, ins, pool_imp P, pool_world P)"
proof -
  let ?P' = "P\<lparr>goroutines := (goroutines P)[i := Exited]\<rparr>"
  have s: "poolStep E P (i, Select TombDying) = ?P'"
    using assms by (simp add: poolStep_def ready_def selectCase_def goroutineDone_def)
  have "runPool E ?P' sched = ?P'" if "\<forall>ev\<in>set sched. fst ev = i" for sched
    using runPool_Exited [of i ?P' sched E] that assms(1) by simp
  moreover have "readLoop E ins (pool_imp P) (pool_world P) (TombDying # sels)
           = (Some None, ins, pool_imp P, pool_world P)"
    using assms(3) by (simp add: ready_def selectCase_def)
  ultimately show ?thesis using s by simp
qed

theorem cancelled_worker_abandons_buffer_witness:
  "(1::nat) < length [Exited, exB [[4, 0]] 2 4]
   \<and> Dying (Reason (Some exErr))
   \<and> poolStep exEnv (exPool 3 (Reason (Some exErr)) [1, 3] [exCmd [[1, 0]], exCmd [[3, 0]]]
          [Exited, exB [[4, 0]] 2 4] (Some exErr)) (1, Select TombDying)
       = exPool 3 (Reason (Some exErr)) [1, 3] [exCmd [[1, 0]], exCmd [[3, 0]]]
          [Exited, Exited] (Some exErr)"
proof -
  let ?P = "exPool 3 (Reason (Some exErr)) [1, 3] [exCmd [[1, 0]], exCmd [[3, 0]]]
          [Exited, exB [[4, 0]] 2 4] (Some exErr)"
  have h1: "1 < length (goroutines ?P)" by (simp add: exPool_def)
  have h2: "goroutines ?P ! 1 = Running (Bulk \<lparr>bulk = \<lparr>wcb_c = ''c'', wcb_docs = [[4, 0]],
                wcb_unordered = True, wcb_writeConcern = ''majority''\<rparr>,
              continueOnError = False, docLimit = 1, byteCount = 4, docCount = 2\<rparr>)"
    by (simp add: exPool_def exB_def)
  have h3: "Dying (Tomb (pool_imp ?P))" by (simp add: exPool_def Dying_def)
  show ?thesis
    using cancelled_worker_abandons_buffer [OF h1 h2 h3, of exEnv "[]"]
    by (simp add: exPool_def Dying_def)
qed

text \<open>
  C8, as stated, fails: once the tomb is dying a worker's \<^verbatim>\<open>select\<close> can still take the
  case of the channel. In the run above the tomb is dying after worker 0 has returned its
  error, with one batch flushed; worker 1 then receives the record with key 4, and its
  \<^verbatim>\<open>Insert\<close> flushes the batch with key 3.
\<close>

theorem flush_after_cancellation_counterexample:
  "Dying (Tomb (pool_imp (snd (ingestDocuments exEnv exStopImp (exWorld [1]) exSched))))
   \<and> flushed (sent (pool_world (snd (ingestDocuments exEnv exStopImp (exWorld [1]) exSched))))
       = [[[1, 0]]]
   \<and> flushed (sent (pool_world (snd (ingestDocuments exEnv exStopImp (exWorld [1])
         (exSched @ [(1, Select (Document (exDoc 4)))]))))) = [[[1, 0]], [[3, 0]]]"
proof -
  have "snd (ingestDocuments exEnv exStopImp (exWorld [1]) exSched)
          = exPool 2 (Reason (Some exErr)) [1] [exCmd [[1, 0]]] [Exited, exB [[3, 0]] 1 2] (Some exErr)"
    by (simp only: exIngest Let_def exSched_run snd_conv)
  moreover have "snd (ingestDocuments exEnv exStopImp (exWorld [1])
                    (exSched @ [(1, Select (Document (exDoc 4)))]))
          = exPool 3 (Reason (Some exErr)) [1, 3] [exCmd [[1, 0]], exCmd [[3, 0]]]
              [Exited, exB [[4, 0]] 2 4] (Some exErr)"
    by (simp only: exIngest Let_def runPool_append runPool_single exSched_run exStep6 snd_conv)
  ultimately show ?thesis
    by (simp add: exPool_def Dying_def exCmd_def)
qed

section \<open>The first error\<close>

lemma goroutineDone_retErr:
  "retErr P = Some e0 \<Longrightarrow> retErr (goroutineDone i err P) = Some e0"
  by (simp add: goroutineDone_def Let_def split: option.splits)

lemma poolStep_retErr: "retErr P = Some e0 \<Longrightarrow> retErr (poolStep E P ev) = Some e0"
  by (auto simp: poolStep_def goroutineDone_retErr
      split: prod.splits goroutine.splits act.splits sum.splits option.splits)

lemma runPool_retErr: "retErr P = Some e0 \<Longrightarrow> retErr (runPool E P sched) = Some e0"
  unfolding runPool_def by (induction sched arbitrary: P) (simp_all add: poolStep_retErr)

lemma goroutineDone_first:
  "retErr P = None \<Longrightarrow>
     retErr (goroutineDone i (Some e) P) = Some e
     \<and> Dying (Tomb (pool_imp (goroutineDone i (Some e) P)))
     \<and> (Tomb (pool_imp P) = ErrStillAlive
          \<longrightarrow> Tomb (pool_imp (goroutineDone i (Some e) P)) = Reason (Some e))"
  by (auto simp: goroutineDone_def Let_def Dying_def Kill_def split: tomb.splits option.splits)

lemma runPipeline_Some:
  assumes "runPipeline E imp w R = Some (n, e1, imp', w')"
  shows "\<exists>P. ingestDocuments E imp w (schedule R) = (Some (retErr P), P)
           \<and> list_all hasExited (goroutines P)
           \<and> e1 = firstError (if producerFirst R then [StreamDocument R, retErr P]
                                else [retErr P, StreamDocument R])
           \<and> n = insertionCount (pool_imp P) \<and> imp' = pool_imp P \<and> w' = pool_world P"
proof -
  obtain r P where i: "ingestDocuments E imp w (schedule R) = (r, P)"
    by (cases "ingestDocuments E imp w (schedule R)") auto
  from i have r: "r = (if list_all hasExited (goroutines P) then Some (retErr P) else None)"
    by (auto simp: ingestDocuments_def Let_def)
  from assms i obtain e where e: "r = Some e"
    by (cases r) (simp_all add: runPipeline_def)
  with r have x: "list_all hasExited (goroutines P)" "e = retErr P"
    by (auto split: if_splits)
  from assms i e x show ?thesis
    by (auto simp: runPipeline_def channelQuorumError_def Let_def split: if_splits)
qed

text \<open>
  C9, as amended. When a worker returns an error and the error slot is empty, the error is
  stored and the tomb is killed with it. When the slot holds an error, a later error of another
  worker does not replace it, and no schedule of the pool changes it. When the concurrent part
  of \<^verbatim>\<open>importDocuments\<close> returns, every worker goroutine has exited, and the error returned
  is the first one that is not nil among the producer's and the retained one, in the order
  they arrive: a single error, and the retained one when the producer ended without error.
\<close>

theorem first_error_retained:
  "(retErr P = None \<longrightarrow>
      retErr (goroutineDone i (Some e) P) = Some e
      \<and> Dying (Tomb (pool_imp (goroutineDone i (Some e) P)))
      \<and> (Tomb (pool_imp P) = ErrStillAlive
           \<longrightarrow> Tomb (pool_imp (goroutineDone i (Some e) P)) = Reason (Some e)))
   \<and> (retErr P = Some e0 \<longrightarrow>
        retErr (goroutineDone i (Some e) P) = Some e0
        \<and> retErr (runPool E P sched) = Some e0)
   \<and> (runPipeline E imp w R = Some (n, e1, imp', w') \<longrightarrow>
        (\<exists>P'. ingestDocuments E imp w (schedule R) = (Some (retErr P'), P')
           \<and> list_all hasExited (goroutines P')
           \<and> e1 = firstError (if producerFirst R then [StreamDocument R, retErr P']
                                else [retErr P', StreamDocument R])
           \<and> (StreamDocument R = None \<longrightarrow> e1 = retErr P')
           \<and> n = insertionCount (pool_imp P')))"
proof -
  have c: "\<exists>P'. ingestDocuments E imp w (schedule R) = (Some (retErr P'), P')
           \<and> list_all hasExited (goroutines P')
           \<and> e1 = firstError (if producerFirst R then [StreamDocument R, retErr P']
                                else [retErr P', StreamDocument R])
           \<and> (StreamDocument R = None \<longrightarrow> e1 = retErr P')
           \<and> n = insertionCount (pool_imp P')"
    if "runPipeline E imp w R = Some (n, e1, imp', w')"
  proof -
    from runPipeline_Some [OF that] obtain P' where
      p: "ingestDocuments E imp w (schedule R) = (Some (retErr P'), P')"
        "list_all hasExited (goroutines P')"
        "e1 = firstError (if producerFirst R then [StreamDocument R, retErr P']
                                else [retErr P', StreamDocument R])"
        "n = insertionCount (pool_imp P')" by blast
    have "StreamDocument R = None \<longrightarrow> e1 = retErr P'"
      using p(3) by (cases "retErr P'") auto
    with p show ?thesis by (intro exI [of _ P']) simp
  qed
  show ?thesis
    using goroutineDone_first [of P i e] goroutineDone_retErr [of P e0 i "Some e"]
      runPool_retErr [of P e0 E sched] c
    by blast
qed

lemma exRun_result:
  "runPipeline exEnv exStopImp (exWorld [1]) exRun
     = Some (2, Some exErr, exStopImp\<lparr>insertionCount := 2, Tomb := Reason (Some exErr)\<rparr>,
             \<lparr>store = [1], sent = [exCmd [[1, 0]]]\<rparr>)"
proof -
  have "runPool exEnv (exPool 0 ErrStillAlive [1] [] [Spawned, Spawned] None) (schedule exRun)
          = exPool 2 (Reason (Some exErr)) [1] [exCmd [[1, 0]]] [Exited, Exited] (Some exErr)"
    by (simp only: exRun_def run.simps runPool_append runPool_single exSched_run exStep7)
  then show ?thesis
    by (simp add: runPipeline_def exIngest Let_def channelQuorumError_def)
      (simp add: exPool_def hasExited_def exRun_def)
qed

theorem first_error_retained_witness:
  "retErr (exPool 2 ErrStillAlive [1] [] [exB [[1, 0]] 1 2, exB [[3, 0]] 1 2] None) = None
   \<and> retErr (exPool 2 (Reason (Some exErr)) [1] [exCmd [[1, 0]]] [Exited, exB [[3, 0]] 1 2] (Some exErr))
        = Some exErr
   \<and> retErr (poolStep exEnv
        (exPool 2 (Reason (Some exErr)) [1] [exCmd [[1, 0]]] [Exited, exB [[3, 0]] 1 2] (Some exErr))
        (1, Select (Document [(''pad'', 3)]))) = Some exErr
   \<and> runPipeline exEnv exStopImp (exWorld [1]) exRun
       = Some (2, Some exErr, exStopImp\<lparr>insertionCount := 2, Tomb := Reason (Some exErr)\<rparr>,
               \<lparr>store = [1], sent = [exCmd [[1, 0]]]\<rparr>)
   \<and> StreamDocument exRun = None"
proof -
  let ?P = "exPool 2 (Reason (Some exErr)) [1] [exCmd [[1, 0]]] [Exited, exB [[3, 0]] 1 2] (Some exErr)"
  have a: "retErr (exPool 2 ErrStillAlive [1] [] [exB [[1, 0]] 1 2, exB [[3, 0]] 1 2] None) = None"
    by (simp add: exPool_def)
  have b: "retErr ?P = Some exErr" by (simp add: exPool_def)
  have s: "StreamDocument exRun = None" by (simp add: exRun_def)
  show ?thesis
    using first_error_retained [where P = ?P and ?e0.0 = exErr and E = exEnv
        and sched = "[(1, Select (Document [(''pad'', 3)]))]" and imp = exStopImp
        and w = "exWorld [1]" and R = exRun and n = 2 and ?e1.0 = "Some exErr"
        and imp' = "exStopImp\<lparr>insertionCount := 2, Tomb := Reason (Some exErr)\<rparr>"
        and w' = "\<lparr>store = [1], sent = [exCmd [[1, 0]]]\<rparr>"]
      a b s exRun_result
    by (simp add: runPool_single)
qed

text \<open>
  C9, as stated, fails: the coordinator does not always return the retained error. In the run
  above with a producer that ends with a decoding error and signals first, every worker has
  exited and the error slot holds the write error of worker 0, but the error returned is the
  producer's.
\<close>

theorem producer_error_counterexample:
  "runPipeline exEnv exStopImp (exWorld [1]) exDecodeRun
     = Some (2, Some (DriverError ''decode''),
             exStopImp\<lparr>insertionCount := 2, Tomb := Reason (Some exErr)\<rparr>,
             \<lparr>store = [1], sent = [exCmd [[1, 0]]]\<rparr>)
   \<and> ingestDocuments exEnv exStopImp (exWorld [1]) (schedule exDecodeRun)
       = (Some (Some exErr),
          exPool 2 (Reason (Some exErr)) [1] [exCmd [[1, 0]]] [Exited, Exited] (Some exErr))
   \<and> retErr (exPool 2 (Reason (Some exErr)) [1] [exCmd [[1, 0]]] [Exited, Exited] (Some exErr))
       = Some exErr
   \<and> exErr \<noteq> DriverError ''decode''"
proof -
  have r: "runPool exEnv (exPool 0 ErrStillAlive [1] [] [Spawned, Spawned] None)
             (schedule exDecodeRun)
          = exPool 2 (Reason (Some exErr)) [1] [exCmd [[1, 0]]] [Exited, Exited] (Some exErr)"
    by (simp only: exDecodeRun_def run.simps runPool_append runPool_single exSched_run exStep7)
  have i: "ingestDocuments exEnv exStopImp (exWorld [1]) (schedule exDecodeRun)
       = (Some (Some exErr),
          exPool 2 (Reason (Some exErr)) [1] [exCmd [[1, 0]]] [Exited, Exited] (Some exErr))"
    using r by (simp add: exIngest Let_def) (simp add: exPool_def hasExited_def)
  have p: "runPipeline exEnv exStopImp (exWorld [1]) exDecodeRun
     = Some (2, Some (DriverError ''decode''),
             exStopImp\<lparr>insertionCount := 2, Tomb := Reason (Some exErr)\<rparr>,
             \<lparr>store = [1], sent = [exCmd [[1, 0]]]\<rparr>)"
    using i
    by (simp add: runPipeline_def channelQuorumError_def)
      (simp add: exPool_def exDecodeRun_def)
  show ?thesis using p i by (simp add: exPool_def exErr_def)
qed

section \<open>One worker: the pool and the worker function\<close>

text \<open>
  With a single goroutine the schedule is the list of cases its \<^verbatim>\<open>select\<close> takes, and the
  pool does what \<^verbatim>\<open>runInsertionWorker\<close> does on that list: \<^verbatim>\<open>ingestDocuments\<close> returns
  the worker's error, in the same world and with the same count.
\<close>

lemma goroutineDone_single:
  "goroutineDone 0 err \<lparr>pool_imp = imp, pool_world = w, goroutines = [g], retErr = None\<rparr>
     = \<lparr>pool_imp = (case err of None \<Rightarrow> imp | Some e \<Rightarrow> imp\<lparr>Tomb := Kill (Tomb imp) (Some e)\<rparr>),
        pool_world = w, goroutines = [Exited], retErr = err\<rparr>"
  by (simp add: goroutineDone_def Let_def split: option.splits)

lemma single_goroutine_readLoop:
  "runPool E \<lparr>pool_imp = imp, pool_world = w, goroutines = [Running ins], retErr = None\<rparr>
       (map (\<lambda>sel. (0, Select sel)) sels)
     = (case readLoop E ins imp w sels of
          (None, ins', imp', w') \<Rightarrow>
            \<lparr>pool_imp = imp', pool_world = w', goroutines = [Running ins'], retErr = None\<rparr>
        | (Some err, ins', imp', w') \<Rightarrow>
            \<lparr>pool_imp = (case err of None \<Rightarrow> imp'
                          | Some e \<Rightarrow> imp'\<lparr>Tomb := Kill (Tomb imp') (Some e)\<rparr>),
             pool_world = w', goroutines = [Exited], retErr = err\<rparr>)"
proof (induction sels arbitrary: ins imp w)
  case Nil
  then show ?case by (simp add: runPool_def)
next
  case (Cons sel sels)
  let ?P = "\<lparr>pool_imp = imp, pool_world = w, goroutines = [Running ins], retErr = None\<rparr>"
  show ?case
  proof (cases "ready (Tomb imp) sel")
    case False
    then have "poolStep E ?P (0, Select sel) = ?P" by (simp add: poolStep_def)
    then show ?thesis using False Cons.IH [of imp w ins] by (simp add: runPool_def)
  next
    case True
    obtain r ins' imp' w' where sc: "selectCase E sel ins imp w = (r, ins', imp', w')"
      by (cases "selectCase E sel ins imp w") auto
    show ?thesis
    proof (cases r)
      case None
      then have "poolStep E ?P (0, Select sel)
                   = \<lparr>pool_imp = imp', pool_world = w', goroutines = [Running ins'], retErr = None\<rparr>"
        using True sc by (simp add: poolStep_def)
      then show ?thesis using True sc None Cons.IH [of imp' w' ins'] by (simp add: runPool_def)
    next
      case (Some err)
      let ?Q = "\<lparr>pool_imp = (case err of None \<Rightarrow> imp'
                               | Some e \<Rightarrow> imp'\<lparr>Tomb := Kill (Tomb imp') (Some e)\<rparr>),
                  pool_world = w', goroutines = [Exited], retErr = err\<rparr>"
      have s: "poolStep E ?P (0, Select sel) = ?Q"
        using True sc Some by (simp add: poolStep_def goroutineDone_single)
      have "goroutines ?Q = [Exited]" by simp
      then have "runPool E ?Q (map (\<lambda>sel. (0, Select sel)) sels) = ?Q"
        by (intro runPool_Exited [of 0]) auto
      then show ?thesis using True sc Some s by (simp add: runPool_def)
    qed
  qed
qed

lemma one_worker_ingestDocuments:
  assumes "NumInsertionWorkers (IngestOptions imp) = 1"
  shows "fst (ingestDocuments E imp w ((0, Start) # map (\<lambda>sel. (0, Select sel)) sels))
           = fst (runInsertionWorker E imp w sels)
         \<and> pool_world (snd (ingestDocuments E imp w ((0, Start) # map (\<lambda>sel. (0, Select sel)) sels)))
           = snd (snd (runInsertionWorker E imp w sels))
         \<and> insertionCount (pool_imp (snd (ingestDocuments E imp w
               ((0, Start) # map (\<lambda>sel. (0, Select sel)) sels))))
           = insertionCount (fst (snd (runInsertionWorker E imp w sels)))"
proof (cases "workerSetup E imp")
  case (Inl err)
  let ?P0 = "\<lparr>pool_imp = imp, pool_world = w, goroutines = [Spawned], retErr = None\<rparr>"
  let ?Q = "\<lparr>pool_imp = imp\<lparr>Tomb := Kill (Tomb imp) (Some err)\<rparr>, pool_world = w,
              goroutines = [Exited], retErr = Some err\<rparr>"
  have s: "poolStep E ?P0 (0, Start) = ?Q"
    using Inl by (simp add: poolStep_def goroutineDone_single)
  have "goroutines ?Q = [Exited]" by simp
  then have "runPool E ?Q (map (\<lambda>sel. (0, Select sel)) sels) = ?Q"
    by (intro runPool_Exited [of 0]) auto
  then show ?thesis
    using Inl s assms
    by (simp add: ingestDocuments_def numInsertionWorkers_def runInsertionWorker_def runPool_def
        Let_def hasExited_def)
next
  case (Inr ins)
  let ?P0 = "\<lparr>pool_imp = imp, pool_world = w, goroutines = [Spawned], retErr = None\<rparr>"
  have s: "poolStep E ?P0 (0, Start)
             = \<lparr>pool_imp = imp, pool_world = w, goroutines = [Running ins], retErr = None\<rparr>"
    using Inr by (simp add: poolStep_def)
  obtain r ins' imp' w' where rl: "readLoop E ins imp w sels = (r, ins', imp', w')"
    by (cases "readLoop E ins imp w sels") auto
  show ?thesis
    using Inr s assms rl single_goroutine_readLoop [of E imp w ins sels]
    by (cases r)
      (auto simp: ingestDocuments_def numInsertionWorkers_def runInsertionWorker_def runPool_def
        Let_def hasExited_def split: option.splits)
qed

section \<open>The end-to-end scenario\<close>

lemma wcb_Run_noConn:
  "noConnectionError E \<Longrightarrow> wcb_Run E wcb w = (Some e, w') \<Longrightarrow> \<not> IsConnectionError e"
  by (auto simp: wcb_Run_def roundTrip_def noConnectionError_def IsConnectionError_def Let_def
      split: prod.splits option.splits if_splits)
    (metis fst_conv)

lemma Flush_noConn:
  "noConnectionError E \<Longrightarrow> Flush E bb w = (Some e, bb', w') \<Longrightarrow> \<not> IsConnectionError e"
  by (auto simp: Flush_def split: if_splits prod.splits dest: wcb_Run_noConn)

lemma Insert_noConn:
  "noConnectionError E \<Longrightarrow> Insert E bb w d = (Some e, bb', w') \<Longrightarrow> \<not> IsConnectionError e"
  by (auto simp: Insert_def IsConnectionError_def split: sum.splits if_splits prod.splits
      dest: Flush_noConn)

lemma selectCase_Document:
  assumes "noConnectionError E" and "\<not> StopOnError (IngestOptions imp)"
    and "\<not> IgnoreBlanks (IngestOptions imp)" and "Insert E bb w d = (err, bb', w')"
  shows "selectCase E (Document d) (Bulk bb) imp w
           = (None, Bulk bb', imp\<lparr>insertionCount := (insertionCount imp + 1) mod 2 ^ 64\<rparr>, w')"
proof -
  have "filterIngestError False err = None"
    using Insert_noConn [OF assms(1)] assms(4) by (cases err) (auto simp: filterIngestError_def)
  then show ?thesis using assms by (simp add: selectCase_def inserter_Insert_def)
qed

lemma runPool_Documents:
  assumes "noConnectionError E" and "\<not> StopOnError (IngestOptions imp)"
    and "\<not> IgnoreBlanks (IngestOptions imp)"
    and "calls E bb w (map CallInsert ds) = (bb', w')"
    and "insertionCount imp < 2 ^ 64"
  shows "runPool E \<lparr>pool_imp = imp, pool_world = w, goroutines = [Running (Bulk bb)], retErr = r\<rparr>
           (map (\<lambda>d. (0, Select (Document d))) ds)
         = \<lparr>pool_imp = imp\<lparr>insertionCount := (insertionCount imp + length ds) mod 2 ^ 64\<rparr>,
            pool_world = w', goroutines = [Running (Bulk bb')], retErr = r\<rparr>"
  using assms
proof (induction ds arbitrary: imp bb w)
  case Nil
  then show ?case by (simp add: runPool_def)
next
  case (Cons d ds)
  obtain err bb1 w1 where i: "Insert E bb w d = (err, bb1, w1)"
    by (cases "Insert E bb w d") auto
  let ?imp1 = "imp\<lparr>insertionCount := (insertionCount imp + 1) mod 2 ^ 64\<rparr>"
  have s: "poolStep E \<lparr>pool_imp = imp, pool_world = w, goroutines = [Running (Bulk bb)], retErr = r\<rparr>
             (0, Select (Document d))
           = \<lparr>pool_imp = ?imp1, pool_world = w1, goroutines = [Running (Bulk bb1)], retErr = r\<rparr>"
    using selectCase_Document [OF Cons.prems(1,2,3) i] by (simp add: poolStep_def ready_def)
  have c: "calls E bb1 w1 (map CallInsert ds) = (bb', w')"
    using Cons.prems(4) i by simp
  have n: "((insertionCount imp + 1) mod 2 ^ 64 + length ds) mod 2 ^ 64
             = (insertionCount imp + length (d # ds)) mod 2 ^ 64"
    by (simp add: mod_add_left_eq)
  show ?case
    using Cons.IH [of ?imp1 bb1 w1] Cons.prems(2,3) Cons.prems(1) c s n
    by (simp add: runPool_def)
qed

lemma calls_filling:
  assumes "marshalsWithin E m ds" and "0 \<le> m"
    and "0 \<le> docCount bb" and "0 \<le> byteCount bb"
    and "docCount bb + int (length ds) \<le> docLimit bb"
    and "docCount bb + int (length ds) \<le> BulkDocLimit"
    and "byteCount bb + m * int (length ds) \<le> MaxBulkSize"
    and "calls E bb w (map CallInsert ds) = (bb', w')"
  shows "w' = w \<and> docCount bb' = docCount bb + int (length ds) \<and> docLimit bb' = docLimit bb
         \<and> length (wcb_docs (bulk bb')) = length (wcb_docs (bulk bb)) + length ds"
  using assms
proof (induction ds arbitrary: bb)
  case Nil
  then show ?case by simp
next
  case (Cons d ds)
  from Cons.prems(1) obtain r where m: "marshal E d = Inr r" and l: "int (length r) \<le> m"
    by (auto simp: marshalsWithin_def)
  have rest: "marshalsWithin E m ds"
    using Cons.prems(1) by (simp add: marshalsWithin_def)
  obtain err bb1 w1 where i: "Insert E bb w d = (err, bb1, w1)"
    by (cases "Insert E bb w d") auto
  have mm: "m \<le> m * int (length (d # ds))"
    using Cons.prems(2) by (simp add: algebra_simps mult_nonneg_nonneg)
  have b2: "byteCount bb + int (length r) \<le> MaxBulkSize"
    using Cons.prems(7) l mm by linarith
  have w1': "wrap64 (docCount bb + 1) = docCount bb + 1"
    using Cons.prems(3,6) by (intro wrap64_id) (auto simp: BulkDocLimit_def)
  have w2': "wrap64 (byteCount bb + int (length r)) = byteCount bb + int (length r)"
    using Cons.prems(4) b2 by (intro wrap64_id) (auto simp: MaxBulkSize_def)
  have nf: "\<not> full bb (length r)"
    using Cons.prems(5,6) b2 w2' by (simp add: full_def)
  note I = Insert_when_room [OF m i nf]
  have c: "calls E bb1 w (map CallInsert ds) = (bb', w')"
    using Cons.prems(8) i I(2) by simp
  have lim: "docLimit bb1 = docLimit bb" using Insert_docLimit [OF i] .
  have by1: "byteCount bb1 + m * int (length ds) \<le> MaxBulkSize"
    using I(5) w2' Cons.prems(7) l by (simp add: algebra_simps)
  show ?case
    using Cons.IH [OF rest Cons.prems(2) _ _ _ _ by1 c] I(3,4,5) w1' w2' lim Cons.prems(3,4,5,6)
    by simp
qed

lemma calls_flushing:
  assumes "marshalsWithin E m ds"
    and "docLimit bb \<le> docCount bb" and "0 < docCount bb"
    and "docCount bb + int (length ds) < 2 ^ 63"
    and "calls E bb w (map CallInsert ds) = (bb', w')"
  shows "map length (flushed (sent w')) @ [length (wcb_docs (bulk bb'))]
           = map length (flushed (sent w)) @ [length (wcb_docs (bulk bb))] @ replicate (length ds) 1
         \<and> docCount bb' = docCount bb + int (length ds) \<and> docLimit bb' = docLimit bb"
  using assms
proof (induction ds arbitrary: bb w)
  case Nil
  then show ?case by simp
next
  case (Cons d ds)
  from Cons.prems(1) obtain r where m: "marshal E d = Inr r"
    by (auto simp: marshalsWithin_def)
  have rest: "marshalsWithin E m ds"
    using Cons.prems(1) by (simp add: marshalsWithin_def)
  obtain err bb1 w1 where i: "Insert E bb w d = (err, bb1, w1)"
    by (cases "Insert E bb w d") auto
  obtain ferr fbb fw where f: "Flush E bb w = (ferr, fbb, fw)"
    by (cases "Flush E bb w") auto
  have w1': "wrap64 (docCount bb + 1) = docCount bb + 1"
    using Cons.prems(3,4) by (intro wrap64_id) auto
  have fl: "full bb (length r)"
    using Cons.prems(2) by (simp add: full_def)
  note I = Insert_when_full [OF m i f fl]
  have a: "flushed (sent w1) = flushed (sent w) @ [wcb_docs (bulk bb)]"
    "wcb_docs (bulk bb1) = [r]" "docCount bb1 = docCount bb + 1"
    using I(4,6,7) w1' Cons.prems(3) by auto
  have lim: "docLimit bb1 = docLimit bb" using Insert_docLimit [OF i] .
  have c: "calls E bb1 w1 (map CallInsert ds) = (bb', w')"
    using Cons.prems(5) i by simp
  have "map length (flushed (sent w')) @ [length (wcb_docs (bulk bb'))]
           = map length (flushed (sent w1)) @ [length (wcb_docs (bulk bb1))] @ replicate (length ds) 1
         \<and> docCount bb' = docCount bb1 + int (length ds) \<and> docLimit bb' = docLimit bb1"
    using Cons.IH [OF rest _ _ _ c] a lim Cons.prems(2,3,4) by simp
  then show ?case using a lim by (simp add: replicate_append_same)
qed

lemma poolStep_ChannelClosed:
  assumes "noConnectionError E" and "\<not> StopOnError (IngestOptions imp)"
    and "Flush E bb w = (err, bb', w')"
  shows "poolStep E \<lparr>pool_imp = imp, pool_world = w, goroutines = [Running (Bulk bb)], retErr = None\<rparr>
           (0, Select ChannelClosed)
         = \<lparr>pool_imp = imp, pool_world = w', goroutines = [Exited], retErr = None\<rparr>"
proof -
  have "filterIngestError False err = None"
    using Flush_noConn [OF assms(1)] assms(3) by (cases err) (auto simp: filterIngestError_def)
  then show ?thesis
    using assms by (simp add: poolStep_def ready_def selectCase_def inserter_Flush_def goroutineDone_def)
qed


lemma calls_append:
  "calls E bb w (cs1 @ cs2) = (case calls E bb w cs1 of (bb1, w1) \<Rightarrow> calls E bb1 w1 cs2)"
  by (induction E bb w cs1 rule: calls.induct) (simp_all split: prod.splits)

lemma single_worker_run:
  assumes nc: "noConnectionError E" and so: "\<not> StopOnError (IngestOptions imp)"
    and ib: "\<not> IgnoreBlanks (IngestOptions imp)" and ic: "insertionCount imp < 2 ^ 64"
    and mw: "marshalsWithin E m (ds1 @ ds2)" and m0: "0 \<le> m"
    and fresh: "docCount bb = 0" "byteCount bb = 0" "wcb_docs (bulk bb) = []"
    and lim: "docLimit bb = int (length ds1)" "int (length ds1) \<le> BulkDocLimit" "ds1 \<noteq> []"
    and bytes: "m * int (length ds1) \<le> MaxBulkSize"
    and len: "int (length ds1) + int (length ds2) < 2 ^ 63"
  shows "\<exists>w'. runPool E \<lparr>pool_imp = imp, pool_world = w, goroutines = [Running (Bulk bb)],
                           retErr = None\<rparr>
                 (map (\<lambda>d. (0, Select (Document d))) (ds1 @ ds2) @ [(0, Select ChannelClosed)])
               = \<lparr>pool_imp = imp\<lparr>insertionCount :=
                                     (insertionCount imp + length (ds1 @ ds2)) mod 2 ^ 64\<rparr>,
                  pool_world = w', goroutines = [Exited], retErr = None\<rparr>
             \<and> map length (flushed (sent w'))
                 = map length (flushed (sent w)) @ [length ds1] @ replicate (length ds2) 1"
proof -
  have mw1: "marshalsWithin E m ds1" and mw2: "marshalsWithin E m ds2"
    using mw by (auto simp: marshalsWithin_def)
  obtain bb1 w1 where c1: "calls E bb w (map CallInsert ds1) = (bb1, w1)"
    by (cases "calls E bb w (map CallInsert ds1)") auto
  obtain bb2 w2 where c2: "calls E bb1 w1 (map CallInsert ds2) = (bb2, w2)"
    by (cases "calls E bb1 w1 (map CallInsert ds2)") auto
  have f1: "w1 = w" "docCount bb1 = int (length ds1)" "docLimit bb1 = int (length ds1)"
    "length (wcb_docs (bulk bb1)) = length ds1"
    using calls_filling [OF mw1 m0 _ _ _ _ _ c1] fresh lim bytes by simp_all
  have pos: "0 < docCount bb1" using f1 lim(3) by simp
  have f2: "map length (flushed (sent w2)) @ [length (wcb_docs (bulk bb2))]
              = map length (flushed (sent w)) @ [length ds1] @ replicate (length ds2) 1"
    "docCount bb2 = int (length ds1) + int (length ds2)"
    using calls_flushing [OF mw2 _ pos _ c2] f1 len by simp_all
  have c: "calls E bb w (map CallInsert (ds1 @ ds2)) = (bb2, w2)"
    using c1 c2 by (simp add: calls_append)
  let ?imp' = "imp\<lparr>insertionCount := (insertionCount imp + length (ds1 @ ds2)) mod 2 ^ 64\<rparr>"
  have r1: "runPool E \<lparr>pool_imp = imp, pool_world = w, goroutines = [Running (Bulk bb)],
                        retErr = None\<rparr> (map (\<lambda>d. (0, Select (Document d))) (ds1 @ ds2))
              = \<lparr>pool_imp = ?imp', pool_world = w2, goroutines = [Running (Bulk bb2)],
                 retErr = None\<rparr>"
    using runPool_Documents [OF nc so ib c ic] .
  obtain err bb3 w3 where fl: "Flush E bb2 w2 = (err, bb3, w3)"
    by (cases "Flush E bb2 w2") auto
  have "0 < length ds1" using lim(3) by simp
  then have ne: "docCount bb2 \<noteq> 0" using f2(2) by linarith
  have "wcb_Run E (bulk bb2) w2 = (err, w3)"
    using Flush_nonempty [OF ne fl] by simp
  from sent_wcb_Run [OF this]
  have s3: "map length (flushed (sent w3))
              = map length (flushed (sent w2)) @ [length (wcb_docs (bulk bb2))]"
    by simp
  have so': "\<not> StopOnError (IngestOptions ?imp')" using so by simp
  have r2: "poolStep E \<lparr>pool_imp = ?imp', pool_world = w2, goroutines = [Running (Bulk bb2)],
                         retErr = None\<rparr> (0, Select ChannelClosed)
              = \<lparr>pool_imp = ?imp', pool_world = w3, goroutines = [Exited], retErr = None\<rparr>"
    using poolStep_ChannelClosed [OF nc so' fl] .
  show ?thesis
    using r1 r2 s3 f2(1) by (intro exI [of _ w3]) (simp add: runPool_def)
qed

lemma exServer_noConn: "noConnectionError exEnv"
  by (auto simp: noConnectionError_def exEnv_sel exServer_def IsConnectionError_def exOk_def
      split: request.splits list.splits option.splits prod.splits if_splits)

lemma exRecords_marshal: "j \<le> 65536 \<Longrightarrow> marshalsWithin exEnv 2 (exRecords i j)"
  by (auto simp: marshalsWithin_def exRecords_def exEnv_sel exMarshal_exDoc)

lemma exRecords_split: "exRecords 0 2500 = exRecords 0 1000 @ exRecords 1000 2500"
proof -
  have "[0..<1000 + 1500] = [0..<1000] @ [1000..<1000 + 1500]"
    by (rule upt_add_eq_append) simp
  then show ?thesis by (simp add: exRecords_def)
qed

lemma exImp_setup: "workerSetup exEnv exImp = Inr (Bulk (exBuilder 1000))"
  by (simp add: workerSetup_def configureSession_def exEnv_sel newInserter_def exImp_def
      exBuilder_def NewBufferedBulkInserter_def NewWriteCommandBulk_def wcb_Reset_def
      wcb_Unordered_def)

text \<open>
  C1. The claim: 2500 records, document limit 1000, one worker, errors do not stop the run,
  and one record whose key the store already holds give a count of 2499, no error, and three
  batches of 1000, 1000 and 500 records. The run returns no error, but the count is 2500, since
  the counter advances for every record \<^verbatim>\<open>Insert\<close> has taken, and 1501 batches are flushed:
  the document count is never reset, so after the first batch of 1000 every record triggers a
  flush of the one record before it.
\<close>

theorem scenario_2500_records:
  "map_option (\<lambda>(n, err, imp', w'). (n, err, map length (flushed (sent w'))))
     (importDocuments exEnv exImp (exWorld [7]) exBigRun)
   = Some (2500, None, 1000 # replicate 1500 1)"
proof -
  let ?P0 = "\<lparr>pool_imp = exImp, pool_world = exWorld [7], goroutines = [Spawned], retErr = None\<rparr>"
  let ?P1 = "\<lparr>pool_imp = exImp, pool_world = exWorld [7],
              goroutines = [Running (Bulk (exBuilder 1000))], retErr = None\<rparr>"
  have so: "\<not> StopOnError (IngestOptions exImp)" "\<not> IgnoreBlanks (IngestOptions exImp)"
    "insertionCount exImp < 2 ^ 64"
    by (simp_all add: exImp_def)
  have mw: "marshalsWithin exEnv 2 (exRecords 0 1000 @ exRecords 1000 2500)"
    using exRecords_marshal [of 2500 0] by (simp add: exRecords_split)
  have l1: "length (exRecords 0 1000) = 1000" and l2: "length (exRecords 1000 2500) = 1500"
    by (simp_all add: exRecords_def)
  have ne: "exRecords 0 1000 \<noteq> []" using l1 by auto
  obtain w' where
    r: "runPool exEnv ?P1 (map (\<lambda>d. (0, Select (Document d))) (exRecords 0 1000 @ exRecords 1000 2500)
               @ [(0, Select ChannelClosed)])
          = \<lparr>pool_imp = exImp\<lparr>insertionCount :=
                 (insertionCount exImp + length (exRecords 0 1000 @ exRecords 1000 2500)) mod 2 ^ 64\<rparr>,
             pool_world = w', goroutines = [Exited], retErr = None\<rparr>"
    and s: "map length (flushed (sent w'))
              = map length (flushed (sent (exWorld [7]))) @ [length (exRecords 0 1000)]
                  @ replicate (length (exRecords 1000 2500)) 1"
    using single_worker_run [OF exServer_noConn so mw, of "exBuilder 1000" "exWorld [7]"] l1 l2 ne
    by (auto simp: exBuilder_def NewBufferedBulkInserter_def wcb_Reset_def BulkDocLimit_def
        MaxBulkSize_def)
  have st: "poolStep exEnv ?P0 (0, Start) = ?P1"
    by (simp add: poolStep_def exImp_setup)
  have run: "runPool exEnv ?P0 (schedule exBigRun)
          = \<lparr>pool_imp = exImp\<lparr>insertionCount := 2500\<rparr>,
             pool_world = w', goroutines = [Exited], retErr = None\<rparr>"
    using r st l1 l2 by (simp add: exBigRun_def runPool_def exRecords_split exImp_def)
  have s': "map length (flushed (sent w')) = 1000 # replicate 1500 1"
    using s l1 l2 by (simp add: exWorld_def)
  have ing: "ingestDocuments exEnv exImp (exWorld [7]) (schedule exBigRun)
          = (Some None, \<lparr>pool_imp = exImp\<lparr>insertionCount := 2500\<rparr>,
             pool_world = w', goroutines = [Exited], retErr = None\<rparr>)"
    using run by (simp add: ingestDocuments_def numInsertionWorkers_def hasExited_def exImp_def)
  have pipe: "runPipeline exEnv exImp (exWorld [7]) exBigRun
          = Some (2500, None, exImp\<lparr>insertionCount := 2500\<rparr>, w')"
    using ing by (simp add: runPipeline_def channelQuorumError_def exBigRun_def)
  have nt: "exImp\<lparr>nodeType := 0\<rparr> = exImp" by (simp add: exImp_def)
  have "importDocuments exEnv exImp (exWorld [7]) exBigRun
          = Some (2500, None, exImp\<lparr>insertionCount := 2500\<rparr>, w')"
    using pipe nt
    by (simp add: importDocuments_def exEnv_sel configureSession_def)
      (simp add: exImp_def)
  then show ?thesis using s' by simp
qed

end
